theory Spec2Isabelle
  imports Complex_Main
begin

section \<open>Values of the car-listing scripts\<close>

text \<open>
  The two scripts (\<open>pro3_st.py\<close>, the dashboard, and \<open>load_to_db.py\<close>, the loader) work
  on a pandas data frame read from \<open>cleaned_data.csv\<close>. A cell of the frame is a Python
  \<open>str\<close>, a Python \<open>int\<close> or a float; a missing value is the float NaN, as in pandas.

  A finite float is modelled by the rational number it denotes (no arithmetic is done on
  floats here, only comparisons with integer constants and truncation to \<open>int\<close>), the two
  infinities and NaN are values of their own.

  Text is a list of \<open>char\<close>; a \<open>char\<close> stands for the Unicode code point of the same
  number, so the texts of the model are the Python texts over the code points 0 to 255.
  The character classes below are those of Python on that range.
\<close>

datatype fl = Fin rat | PInf | NInf | NaN

datatype cell = CStr string | CInt int | CFloat fl

datatype error =
  KeyError | ValueError | TypeError | OverflowError | AttributeError | StreamlitAPIException

definition isna :: "cell \<Rightarrow> bool" where
  "isna c = (c = CFloat NaN)"

definition bindE :: "error + 'a \<Rightarrow> ('a \<Rightarrow> error + 'b) \<Rightarrow> error + 'b" where
  "bindE m f = (case m of Inl e \<Rightarrow> Inl e | Inr x \<Rightarrow> f x)"

fun mapE :: "('a \<Rightarrow> error + 'b) \<Rightarrow> 'a list \<Rightarrow> error + 'b list" where
  "mapE f [] = Inr []"
| "mapE f (x # xs) =
     (case f x of Inl e \<Rightarrow> Inl e
      | Inr y \<Rightarrow> (case mapE f xs of Inl e \<Rightarrow> Inl e | Inr ys \<Rightarrow> Inr (y # ys)))"

subsection \<open>Python's text operations\<close>

definition code :: "char \<Rightarrow> nat" where
  "code c = of_char c"

definition isdecimal :: "char \<Rightarrow> bool" where
  \<comment> \<open>the characters \<open>int()\<close> reads as digits: 0 to 9\<close>
  "isdecimal c = (48 \<le> code c \<and> code c \<le> 57)"

definition isdigit :: "char \<Rightarrow> bool" where
  \<comment> \<open>\<open>str.isdigit\<close>: 0 to 9 and the superscripts two, three and one\<close>
  "isdigit c = (isdecimal c \<or> code c = 178 \<or> code c = 179 \<or> code c = 185)"

definition isspace :: "char \<Rightarrow> bool" where
  \<comment> \<open>\<open>str.isspace\<close>, the characters \<open>strip()\<close> removes\<close>
  "isspace c = ((9 \<le> code c \<and> code c \<le> 13) \<or> (28 \<le> code c \<and> code c \<le> 32)
     \<or> code c = 133 \<or> code c = 160)"

definition isword :: "char \<Rightarrow> bool" where
  \<comment> \<open>the characters the regular expression \<open>\w\<close> matches\<close>
  "isword c = ((48 \<le> code c \<and> code c \<le> 57) \<or> (65 \<le> code c \<and> code c \<le> 90)
     \<or> code c = 95 \<or> (97 \<le> code c \<and> code c \<le> 122) \<or> code c = 170
     \<or> code c = 178 \<or> code c = 179 \<or> code c = 181 \<or> code c = 185 \<or> code c = 186
     \<or> (188 \<le> code c \<and> code c \<le> 190) \<or> (192 \<le> code c \<and> code c \<le> 214)
     \<or> (216 \<le> code c \<and> code c \<le> 246) \<or> 248 \<le> code c)"

definition lower_chr :: "char \<Rightarrow> char" where
  "lower_chr c =
     (if (65 \<le> code c \<and> code c \<le> 90) \<or> (192 \<le> code c \<and> code c \<le> 214)
         \<or> (216 \<le> code c \<and> code c \<le> 222)
      then char_of (code c + 32) else c)"

definition lower :: "string \<Rightarrow> string" where
  "lower s = map lower_chr s"

definition replace_chr :: "char \<Rightarrow> string \<Rightarrow> string \<Rightarrow> string" where
  \<comment> \<open>\<open>s.replace(old, new)\<close> for a pattern \<open>old\<close> of one character\<close>
  "replace_chr old new s = concat (map (\<lambda>c. if c = old then new else [c]) s)"

fun starts_with :: "string \<Rightarrow> string \<Rightarrow> bool" where
  "starts_with [] s = True"
| "starts_with (p # ps) [] = False"
| "starts_with (p # ps) (c # cs) = (p = c \<and> starts_with ps cs)"

fun contains :: "string \<Rightarrow> string \<Rightarrow> bool" where
  \<comment> \<open>\<open>sub in s\<close>\<close>
  "contains sub [] = (sub = [])"
| "contains sub (c # cs) = (starts_with sub (c # cs) \<or> contains sub cs)"

definition digit_val :: "char \<Rightarrow> int" where
  "digit_val c = int (code c) - 48"

definition int_max_str_digits :: nat where
  \<comment> \<open>the interpreter's default cap on the digits \<open>int()\<close> converts (Python 3.11 on)\<close>
  "int_max_str_digits = 4300"

definition int_of_digits :: "string \<Rightarrow> error + int" where
  \<comment> \<open>\<open>int(num)\<close> on a text of \<open>isdigit\<close> characters: the superscripts are no numerals\<close>
  "int_of_digits num =
     (if num = [] \<or> \<not> list_all isdecimal num \<or> int_max_str_digits < length num
      then Inl ValueError
      else Inr (foldl (\<lambda>a c. 10 * a + digit_val c) 0 num))"

subsection \<open>The engine-capacity normalizer\<close>

fun clean_engine_capacity :: "cell \<Rightarrow> error + cell" where
  "clean_engine_capacity (CStr val) =
     (let v = replace_chr CHR '' '' [] (lower val);
          num = filter isdigit v
      in if num = [] then Inr (CFloat NaN)
         else (case int_of_digits num of
                 Inl e \<Rightarrow> Inl e
               | Inr n \<Rightarrow>
                   if contains ''cc'' v \<or> contains ''kwh'' v \<or> contains ''kw'' v
                   then Inr (CInt n)
                   else Inr (CStr val)))"
| "clean_engine_capacity val = Inr val"

text \<open>
  Two notions to state what the normalizer returns: the number a text of digits writes in
  base ten, and the occurrence of a token somewhere in a text.
\<close>

definition dec_value :: "string \<Rightarrow> int" where
  "dec_value ds = (\<Sum>i < length ds. digit_val (ds ! i) * 10 ^ (length ds - 1 - i))"

definition has_token :: "string \<Rightarrow> string \<Rightarrow> bool" where
  "has_token t v = (\<exists>a b. v = a @ t @ b)"

text \<open>
  The normalizer as section 4.3 of the specification words it: all whitespace removed,
  the maximal leading run of digits extracted, no failure.
\<close>

definition spec_clean_engine_capacity :: "cell \<Rightarrow> cell" where
  "spec_clean_engine_capacity val =
     (case val of
        CStr s \<Rightarrow>
          (let v = filter (\<lambda>c. \<not> isspace c) (lower s);
               ds = takeWhile isdigit v
           in if ds = [] then CFloat NaN
              else if contains ''cc'' v \<or> contains ''kwh'' v \<or> contains ''kw'' v
              then CInt (foldl (\<lambda>a c. 10 * a + digit_val c) 0 ds)
              else val)
      | _ \<Rightarrow> val)"


subsection \<open>Data frames\<close>

text \<open>
  A frame has its column labels and its rows, each row under its index label (the row
  number \<open>read_csv\<close> gave it, which filtering keeps). A row gives a cell for every label
  of \<open>columns\<close>; asking for another label raises \<open>KeyError\<close>. A series is the list
  of the cells of one column, in the order of the rows.
\<close>

type_synonym row = "string \<Rightarrow> cell"

record frame =
  columns :: "string list"
  rows :: "(nat \<times> row) list"

definition getitem :: "frame \<Rightarrow> string \<Rightarrow> error + cell list" where
  \<comment> \<open>\<open>df[name]\<close>\<close>
  "getitem df name =
     (if name \<in> set (columns df) then Inr (map (\<lambda>(i, r). r name) (rows df))
      else Inl KeyError)"

definition setitem :: "frame \<Rightarrow> string \<Rightarrow> cell list \<Rightarrow> frame" where
  \<comment> \<open>\<open>df[name] = series\<close>, the series having one cell for each row\<close>
  "setitem df name vals =
     \<lparr>columns = (if name \<in> set (columns df) then columns df else columns df @ [name]),
      rows = map (\<lambda>((i, r), v). (i, r(name := v))) (zip (rows df) vals)\<rparr>"

definition select :: "frame \<Rightarrow> bool list \<Rightarrow> frame" where
  \<comment> \<open>\<open>df[mask]\<close>\<close>
  "select df keep = df\<lparr>rows := map fst (filter snd (zip (rows df) keep))\<rparr>"

definition and_mask :: "bool list \<Rightarrow> bool list \<Rightarrow> bool list" where
  "and_mask a b = map (\<lambda>(x, y). x \<and> y) (zip a b)"

definition or_mask :: "bool list \<Rightarrow> bool list \<Rightarrow> bool list" where
  "or_mask a b = map (\<lambda>(x, y). x \<or> y) (zip a b)"

fun fl_ge :: "fl \<Rightarrow> int \<Rightarrow> bool" where
  "fl_ge (Fin q) k = (of_int k \<le> q)"
| "fl_ge PInf k = True"
| "fl_ge NInf k = False"
| "fl_ge NaN k = False"

fun fl_le :: "fl \<Rightarrow> int \<Rightarrow> bool" where
  "fl_le (Fin q) k = (q \<le> of_int k)"
| "fl_le PInf k = False"
| "fl_le NInf k = True"
| "fl_le NaN k = False"

fun cell_ge :: "cell \<Rightarrow> int \<Rightarrow> error + bool" where
  \<comment> \<open>\<open>x >= k\<close> for an integer constant \<open>k\<close>\<close>
  "cell_ge (CStr s) k = Inl TypeError"
| "cell_ge (CInt i) k = Inr (k \<le> i)"
| "cell_ge (CFloat x) k = Inr (fl_ge x k)"

fun cell_le :: "cell \<Rightarrow> int \<Rightarrow> error + bool" where
  "cell_le (CStr s) k = Inl TypeError"
| "cell_le (CInt i) k = Inr (i \<le> k)"
| "cell_le (CFloat x) k = Inr (fl_le x k)"

definition in_range :: "cell \<Rightarrow> int \<Rightarrow> int \<Rightarrow> bool" where
  \<comment> \<open>the cell is a number of the closed interval from \<open>lo\<close> to \<open>hi\<close>\<close>
  "in_range c lo hi =
     (case c of
        CInt i \<Rightarrow> lo \<le> i \<and> i \<le> hi
      | CFloat (Fin q) \<Rightarrow> of_int lo \<le> q \<and> q \<le> of_int hi
      | _ \<Rightarrow> False)"

definition within_ranges :: "row \<Rightarrow> bool" where
  \<comment> \<open>the two range tests of the outlier filter, on one row\<close>
  "within_ranges r \<longleftrightarrow> in_range (r ''mileage'') 0 800000
     \<and> (in_range (r ''engine_capacity'') 600 7000 \<or> in_range (r ''engine_capacity'') 20 150)"

definition ge_series :: "cell list \<Rightarrow> int \<Rightarrow> error + bool list" where
  "ge_series s k = mapE (\<lambda>c. cell_ge c k) s"

definition le_series :: "cell list \<Rightarrow> int \<Rightarrow> error + bool list" where
  "le_series s k = mapE (\<lambda>c. cell_le c k) s"

subsection \<open>The dashboard's cleaning steps\<close>

text \<open>
  \<open>pd.to_numeric(series, errors="coerce")\<close> is pandas' own: it is a parameter
  \<open>to_numeric\<close> of the model, the float it makes of one cell (NaN where it cannot read
  the cell). Nothing is assumed about it.
\<close>

definition coerce_columns :: "(cell \<Rightarrow> fl) \<Rightarrow> frame \<Rightarrow> error + frame" where
  "coerce_columns to_numeric df =
     bindE (getitem df ''engine_capacity'') (\<lambda>ec.
     bindE (mapE clean_engine_capacity ec) (\<lambda>ec.
     let df = setitem df ''engine_capacity'' ec in
     bindE (getitem df ''engine_capacity'') (\<lambda>ec.
     let df = setitem df ''engine_capacity'' (map (\<lambda>c. CFloat (to_numeric c)) ec) in
     bindE (getitem df ''mileage'') (\<lambda>m.
     Inr (setitem df ''mileage'' (map (\<lambda>c. CFloat (to_numeric c)) m))))))"

definition between_series :: "cell list \<Rightarrow> int \<Rightarrow> int \<Rightarrow> error + bool list" where
  \<comment> \<open>\<open>(s >= lo) & (s <= hi)\<close>\<close>
  "between_series s lo hi =
     bindE (ge_series s lo) (\<lambda>a. bindE (le_series s hi) (\<lambda>b. Inr (and_mask a b)))"

definition remove_outliers :: "frame \<Rightarrow> error + frame" where
  "remove_outliers df =
     bindE (getitem df ''mileage'') (\<lambda>m.
     bindE (between_series m 0 800000) (\<lambda>in_range.
     let df = select df in_range in
     bindE (getitem df ''engine_capacity'') (\<lambda>ec.
     bindE (between_series ec 600 7000) (\<lambda>combustion.
     bindE (between_series ec 20 150) (\<lambda>electric.
     let df = select df (or_mask combustion electric) in
     bindE (getitem df ''engine_capacity'') (\<lambda>ec.
     Inr (select df (map (\<lambda>c. \<not> isna c) ec))))))))"

fun split_chr :: "char \<Rightarrow> string \<Rightarrow> string list" where
  \<comment> \<open>\<open>s.split(sep)\<close> for a separator of one character\<close>
  "split_chr sep [] = [[]]"
| "split_chr sep (c # cs) =
     (if c = sep then [] # split_chr sep cs
      else (case split_chr sep cs of [] \<Rightarrow> [[c]] | w # ws \<Rightarrow> (c # w) # ws))"

fun brand_of :: "cell \<Rightarrow> cell" where
  \<comment> \<open>\<open>.str.split(' ').str[0]\<close> on one cell: a cell that is no text gives NaN\<close>
  "brand_of (CStr s) = (case split_chr CHR '' '' s of [] \<Rightarrow> CFloat NaN | w # ws \<Rightarrow> CStr w)"
| "brand_of c = CFloat NaN"

text \<open>
  The \<open>.str\<close> accessor is defined on text only. A column has the dtype \<open>read_csv\<close>
  gave it, which the filters keep: object when a cell of the column is text (and in a
  file without rows), a numeric dtype when every cell is a number or missing. On a numeric
  column \<open>.str\<close> raises \<open>AttributeError\<close>; on an object column it raises it as well
  when the values left, the missing ones apart, are there and none of them is text.
\<close>

datatype dtype = Object | Numeric

definition is_text :: "cell \<Rightarrow> bool" where
  "is_text c = (case c of CStr s \<Rightarrow> True | _ \<Rightarrow> False)"

definition dtype_of :: "frame \<Rightarrow> string \<Rightarrow> dtype" where
  \<comment> \<open>the dtype of a column of the frame as \<open>read_csv\<close> returns it\<close>
  "dtype_of df name =
     (if rows df = [] \<or> list_ex (\<lambda>(i, r). is_text (r name)) (rows df) then Object else Numeric)"

definition str_accessor :: "dtype \<Rightarrow> cell list \<Rightarrow> error + cell list" where
  \<comment> \<open>\<open>series.str\<close>\<close>
  "str_accessor dt s =
     (if dt = Object \<and> (list_all isna s \<or> list_ex is_text s) then Inr s
      else Inl AttributeError)"

definition extract_brand :: "dtype \<Rightarrow> frame \<Rightarrow> error + frame" where
  \<comment> \<open>line 51, on a frame whose title column has the dtype \<open>title_dtype\<close>\<close>
  "extract_brand title_dtype df =
     bindE (getitem df ''title'') (\<lambda>t.
     bindE (str_accessor title_dtype t) (\<lambda>t.
     Inr (setitem df ''brand'' (map brand_of t))))"

definition clean_data :: "(cell \<Rightarrow> fl) \<Rightarrow> frame \<Rightarrow> error + frame" where
  "clean_data to_numeric df =
     (let title_dtype = dtype_of df ''title'' in
      bindE (coerce_columns to_numeric df) (\<lambda>df.
      bindE (remove_outliers df) (extract_brand title_dtype)))"

text \<open>The brand as section 4.5 of the specification words it: the first token between whitespace.\<close>

definition first_whitespace_token :: "string \<Rightarrow> string" where
  "first_whitespace_token s = takeWhile (\<lambda>c. \<not> isspace c) (dropWhile isspace s)"

text \<open>
  A coercion to evaluate the steps with: it reads numbers as they are and, of texts, only
  those made of the digits 0 to 9.
\<close>

definition to_numeric_plain :: "cell \<Rightarrow> fl" where
  "to_numeric_plain c =
     (case c of
        CInt i \<Rightarrow> Fin (of_int i)
      | CFloat x \<Rightarrow> x
      | CStr s \<Rightarrow> (case int_of_digits s of Inl e \<Rightarrow> NaN | Inr n \<Rightarrow> Fin (of_int n)))"

subsection \<open>The dashboard's filters\<close>

definition unique :: "cell list \<Rightarrow> cell list" where
  \<comment> \<open>\<open>series.unique()\<close>: the distinct cells, each at its first place\<close>
  "unique s = rev (remdups (rev s))"

definition isin :: "cell list \<Rightarrow> cell list \<Rightarrow> bool list" where
  "isin s vals = map (\<lambda>c. c \<in> set vals) s"

fun num_of :: "cell \<Rightarrow> error + fl" where
  "num_of (CStr s) = Inl TypeError"
| "num_of (CInt i) = Inr (Fin (of_int i))"
| "num_of (CFloat x) = Inr x"

fun fl_less :: "fl \<Rightarrow> fl \<Rightarrow> bool" where
  "fl_less (Fin a) (Fin b) = (a < b)"
| "fl_less NaN y = False"
| "fl_less x NaN = False"
| "fl_less NInf y = (y \<noteq> NInf)"
| "fl_less x PInf = (x \<noteq> PInf)"
| "fl_less x y = False"

definition nanmin :: "fl list \<Rightarrow> fl" where
  \<comment> \<open>the least value that is not NaN; NaN when there is none\<close>
  "nanmin xs =
     (case filter (\<lambda>x. x \<noteq> NaN) xs of
        [] \<Rightarrow> NaN
      | y # ys \<Rightarrow> foldl (\<lambda>a b. if fl_less b a then b else a) y ys)"

definition nanmax :: "fl list \<Rightarrow> fl" where
  "nanmax xs =
     (case filter (\<lambda>x. x \<noteq> NaN) xs of
        [] \<Rightarrow> NaN
      | y # ys \<Rightarrow> foldl (\<lambda>a b. if fl_less a b then b else a) y ys)"

definition series_min :: "cell list \<Rightarrow> error + fl" where
  \<comment> \<open>\<open>series.min()\<close> of a column of numbers\<close>
  "series_min s = bindE (mapE num_of s) (\<lambda>xs. Inr (nanmin xs))"

definition series_max :: "cell list \<Rightarrow> error + fl" where
  "series_max s = bindE (mapE num_of s) (\<lambda>xs. Inr (nanmax xs))"

fun int_of_fl :: "fl \<Rightarrow> error + int" where
  \<comment> \<open>\<open>int(x)\<close> of a float: truncation towards zero\<close>
  "int_of_fl (Fin q) = Inr (if 0 \<le> q then \<lfloor>q\<rfloor> else \<lceil>q\<rceil>)"
| "int_of_fl NaN = Inl ValueError"
| "int_of_fl x = Inl OverflowError"

definition brand_options :: "frame \<Rightarrow> error + cell list" where
  "brand_options df = bindE (getitem df ''brand'') (\<lambda>b. Inr (unique b))"

definition slider :: "int \<Rightarrow> int \<Rightarrow> int \<times> int \<Rightarrow> error + int \<times> int" where
  \<comment> \<open>\<open>st.sidebar.slider\<close> left as it is shown: it returns the value it was given, and
    refuses bounds of which \<open>min_value\<close> is not below \<open>max_value\<close>\<close>
  "slider min_value max_value val =
     (if min_value < max_value then Inr val else Inl StreamlitAPIException)"

definition year_range :: "frame \<Rightarrow> error + int \<times> int" where
  \<comment> \<open>the default of the year slider: the observed range, or (0, 9999) without a year column\<close>
  "year_range df =
     (if ''year'' \<in> set (columns df) then
        bindE (getitem df ''year'') (\<lambda>y.
        bindE (series_min y) (\<lambda>lo.
        bindE (int_of_fl lo) (\<lambda>min_year.
        bindE (getitem df ''year'') (\<lambda>y.
        bindE (series_max y) (\<lambda>hi.
        bindE (int_of_fl hi) (\<lambda>max_year.
        slider min_year max_year (min_year, max_year)))))))
      else Inr (0, 9999))"

definition apply_filters :: "frame \<Rightarrow> cell list \<Rightarrow> int \<times> int \<Rightarrow> error + frame" where
  "apply_filters df selected_brands selected_years =
     bindE (getitem df ''brand'') (\<lambda>b.
     let df_filtered = select df (isin b selected_brands) in
     if ''year'' \<in> set (columns df) then
       bindE (getitem df_filtered ''year'') (\<lambda>y.
       bindE (ge_series y (fst selected_years)) (\<lambda>lo_ok.
       bindE (getitem df_filtered ''year'') (\<lambda>y.
       bindE (le_series y (snd selected_years)) (\<lambda>hi_ok.
       Inr (select df_filtered (and_mask lo_ok hi_ok))))))
     else Inr df_filtered)"

definition whole_year :: "cell \<Rightarrow> bool" where
  \<comment> \<open>a year that is missing or a whole number\<close>
  "whole_year c =
     (case c of CInt i \<Rightarrow> True | CFloat (Fin q) \<Rightarrow> of_int \<lfloor>q\<rfloor> = q
      | CFloat NaN \<Rightarrow> True | _ \<Rightarrow> False)"

text \<open>A small listing file to run the cleaning steps and the filters on.\<close>

definition example_row :: "string \<Rightarrow> string \<Rightarrow> string \<Rightarrow> fl \<Rightarrow> row" where
  "example_row t m e y =
     (\<lambda>name. CFloat NaN)(''title'' := CStr t, ''mileage'' := CStr m,
        ''engine_capacity'' := CStr e, ''year'' := CFloat y)"

definition example_frame :: frame where
  \<comment> \<open>five listings as \<open>read_csv\<close> gives them: text columns, a float year with a gap\<close>
  "example_frame =
     \<lparr>columns = [''title'', ''year'', ''mileage'', ''engine_capacity''],
      rows = [(0, example_row ''Toyota Corolla 2015'' ''50000'' ''1300cc'' (Fin 2015)),
              (1, example_row ''Honda Civic'' ''900000'' ''1800cc'' (Fin 2018)),
              (2, example_row ''Suzuki Alto'' ''n/a'' ''660cc'' (Fin 2012)),
              (3, example_row ''Kia Sportage'' ''30000'' ''abc'' (Fin 2020)),
              (4, example_row ''Nissan Leaf'' ''10'' ''50kw'' NaN)]\<rparr>"

text \<open>The two rows of it that the cleaning steps keep, with their brand.\<close>

definition cleaned_example :: frame where
  "cleaned_example =
     \<lparr>columns = [''title'', ''year'', ''mileage'', ''engine_capacity'', ''brand''],
      rows = [(0, (\<lambda>name. CFloat NaN)(''title'' := CStr ''Toyota Corolla 2015'',
                  ''year'' := CFloat (Fin 2015), ''engine_capacity'' := CFloat (Fin 1300),
                  ''mileage'' := CFloat (Fin 50000), ''brand'' := CStr ''Toyota'')),
              (4, (\<lambda>name. CFloat NaN)(''title'' := CStr ''Nissan Leaf'',
                  ''year'' := CFloat NaN, ''engine_capacity'' := CFloat (Fin 50),
                  ''mileage'' := CFloat (Fin 10), ''brand'' := CStr ''Nissan''))]\<rparr>"

text \<open>A frame of one title and one missing title, to extract the brand from.\<close>

definition titles_frame :: frame where
  "titles_frame =
     \<lparr>columns = [''title''],
      rows = [(0, \<lambda>name. CStr ''Toyota Corolla 2015''), (1, \<lambda>name. CFloat NaN)]\<rparr>"

text \<open>
  A listing file whose three rows are all kept, of the years 2015 and 2018 and of a
  missing year, and its cleaned frame.
\<close>

definition years_frame :: frame where
  "years_frame =
     \<lparr>columns = [''title'', ''year'', ''mileage'', ''engine_capacity''],
      rows = [(0, example_row ''Toyota Corolla 2015'' ''50000'' ''1300cc'' (Fin 2015)),
              (1, example_row ''Honda Civic'' ''60000'' ''1800cc'' (Fin 2018)),
              (2, example_row ''Nissan Leaf'' ''10'' ''50kw'' NaN)]\<rparr>"

definition years_cleaned :: frame where
  "years_cleaned =
     \<lparr>columns = [''title'', ''year'', ''mileage'', ''engine_capacity'', ''brand''],
      rows = [(0, (\<lambda>name. CFloat NaN)(''title'' := CStr ''Toyota Corolla 2015'',
                  ''year'' := CFloat (Fin 2015), ''engine_capacity'' := CFloat (Fin 1300),
                  ''mileage'' := CFloat (Fin 50000), ''brand'' := CStr ''Toyota'')),
              (1, (\<lambda>name. CFloat NaN)(''title'' := CStr ''Honda Civic'',
                  ''year'' := CFloat (Fin 2018), ''engine_capacity'' := CFloat (Fin 1800),
                  ''mileage'' := CFloat (Fin 60000), ''brand'' := CStr ''Honda'')),
              (2, (\<lambda>name. CFloat NaN)(''title'' := CStr ''Nissan Leaf'',
                  ''year'' := CFloat NaN, ''engine_capacity'' := CFloat (Fin 50),
                  ''mileage'' := CFloat (Fin 10), ''brand'' := CStr ''Nissan''))]\<rparr>"

section \<open>The loader\<close>

subsection \<open>Column labels\<close>

definition strip :: "string \<Rightarrow> string" where
  "strip s = rev (dropWhile isspace (rev (dropWhile isspace s)))"

definition normalize_label :: "string \<Rightarrow> string" where
  \<comment> \<open>\<open>.str.strip().str.replace(' ', '_').str.replace(r'[^\w]', '', regex=True)\<close> on one label\<close>
  "normalize_label x = filter isword (replace_chr CHR '' '' ''_'' (strip x))"

subsection \<open>Filling and inserting\<close>

text \<open>
  The loader works on the frame with the normalized labels. \<open>fillna(0)\<close> puts the float
  0.0 in a column of floats and the integer 0 in a column that holds anything else (a
  text column, of dtype object). Each row is then inserted through \<open>str()\<close>,
  \<open>float()\<close> and \<open>int()\<close>. What these three do on floats and texts is Python's own
  and is a parameter of the model: the text of a float, and the number read from a text.
  A float made from an \<open>int\<close> is taken to be exact.
\<close>

datatype param = PStr string | PFloat fl | PInt int

datatype conversion = ToStr | ToFloat | ToInt

record pylib =
  str_of_float :: "fl \<Rightarrow> string"
  float_of_str :: "string \<Rightarrow> error + fl"
  int_of_str :: "string \<Rightarrow> error + int"

definition float_dtype :: "frame \<Rightarrow> string \<Rightarrow> bool" where
  "float_dtype df name =
     list_all (\<lambda>(i, r). case r name of CFloat x \<Rightarrow> True | _ \<Rightarrow> False) (rows df)"

definition fillna0 :: "frame \<Rightarrow> frame" where
  \<comment> \<open>\<open>df.fillna(0)\<close>\<close>
  "fillna0 df =
     df\<lparr>rows := map (\<lambda>(i, r). (i, \<lambda>name.
        if name \<in> set (columns df) \<and> isna (r name)
        then (if float_dtype df name then CFloat (Fin 0) else CInt 0)
        else r name)) (rows df)\<rparr>"

fun digits_of_nat :: "nat \<Rightarrow> string" where
  "digits_of_nat n =
     (if n < 10 then [char_of (48 + n)]
      else digits_of_nat (n div 10) @ [char_of (48 + n mod 10)])"

definition str_of_int :: "int \<Rightarrow> string" where
  "str_of_int i = (if i < 0 then CHR ''-'' # digits_of_nat (nat (- i)) else digits_of_nat (nat i))"

fun py_str :: "pylib \<Rightarrow> cell \<Rightarrow> error + param" where
  "py_str lib (CStr s) = Inr (PStr s)"
| "py_str lib (CInt i) = Inr (PStr (str_of_int i))"
| "py_str lib (CFloat x) = Inr (PStr (str_of_float lib x))"

fun py_float :: "pylib \<Rightarrow> cell \<Rightarrow> error + param" where
  "py_float lib (CStr s) = bindE (float_of_str lib s) (\<lambda>x. Inr (PFloat x))"
| "py_float lib (CInt i) = Inr (PFloat (Fin (of_int i)))"
| "py_float lib (CFloat x) = Inr (PFloat x)"

fun py_int :: "pylib \<Rightarrow> cell \<Rightarrow> error + param" where
  "py_int lib (CStr s) = bindE (int_of_str lib s) (\<lambda>i. Inr (PInt i))"
| "py_int lib (CInt i) = Inr (PInt i)"
| "py_int lib (CFloat x) = bindE (int_of_fl x) (\<lambda>i. Inr (PInt i))"

fun convert :: "pylib \<Rightarrow> conversion \<Rightarrow> cell \<Rightarrow> error + param" where
  "convert lib ToStr c = py_str lib c"
| "convert lib ToFloat c = py_float lib c"
| "convert lib ToInt c = py_int lib c"

definition insert_columns :: "(string \<times> conversion) list" where
  \<comment> \<open>the twelve values of the INSERT statement, each with the conversion applied to it\<close>
  "insert_columns =
     [(''title'', ToStr), (''price'', ToFloat), (''year'', ToInt), (''mileage'', ToFloat),
      (''fuel'', ToStr), (''engine_capacity'', ToFloat), (''transmission'', ToStr),
      (''Registered_In'', ToStr), (''Color'', ToStr), (''Body_Type'', ToStr),
      (''Assembly'', ToStr), (''Last_Updated'', ToStr)]"

definition row_get :: "frame \<Rightarrow> row \<Rightarrow> string \<Rightarrow> error + cell" where
  \<comment> \<open>\<open>row[name]\<close>\<close>
  "row_get df r name = (if name \<in> set (columns df) then Inr (r name) else Inl KeyError)"

definition insert_params :: "pylib \<Rightarrow> frame \<Rightarrow> row \<Rightarrow> error + param list" where
  "insert_params lib df r =
     mapE (\<lambda>(name, conv). bindE (row_get df r name) (convert lib conv)) insert_columns"

definition load_rows :: "pylib \<Rightarrow> frame \<Rightarrow> error + param list list" where
  \<comment> \<open>the values inserted for each row, in the order of the rows\<close>
  "load_rows lib df =
     (let df = fillna0 df in mapE (\<lambda>(i, r). insert_params lib df r) (rows df))"

text \<open>
  The value section 4.2 of the specification puts in the place of a missing one: numeric 0
  in a numeric column, the empty text in a text column.
\<close>

definition zero_equivalent :: "conversion \<Rightarrow> param" where
  "zero_equivalent conv =
     (case conv of ToStr \<Rightarrow> PStr [] | ToFloat \<Rightarrow> PFloat (Fin 0) | ToInt \<Rightarrow> PInt 0)"

text \<open>A listing file of two rows, the colour of the second one missing, to run the loader on.\<close>

definition example_lib :: pylib where
  \<comment> \<open>the three conversions on the values of the example: whole floats, texts of digits\<close>
  "example_lib =
     \<lparr>str_of_float = (\<lambda>x. case x of Fin q \<Rightarrow> str_of_int \<lfloor>q\<rfloor> @ ''.0'' | PInf \<Rightarrow> ''inf''
          | NInf \<Rightarrow> ''-inf'' | NaN \<Rightarrow> ''nan''),
      float_of_str = (\<lambda>s. bindE (int_of_digits s) (\<lambda>n. Inr (Fin (of_int n)))),
      int_of_str = int_of_digits\<rparr>"

definition stored_row :: "string \<Rightarrow> cell \<Rightarrow> row" where
  "stored_row t colour =
     (\<lambda>name. CStr ''x'')(''title'' := CStr t, ''price'' := CFloat (Fin 1500000),
        ''year'' := CInt 2015, ''mileage'' := CFloat (Fin 50000),
        ''engine_capacity'' := CFloat (Fin 1300), ''Color'' := colour)"

definition stored_frame :: frame where
  "stored_frame =
     \<lparr>columns = map fst insert_columns,
      rows = [(0, stored_row ''Toyota Corolla'' (CStr ''Red'')),
              (1, stored_row ''Honda Civic'' (CFloat NaN))]\<rparr>"

section \<open>The engine-capacity normalizer\<close>

lemma replace_chr_empty: "replace_chr c [] s = filter (\<lambda>x. x \<noteq> c) s"
  by (induction s) (auto simp: replace_chr_def)

lemma starts_with_iff: "starts_with p s \<longleftrightarrow> (\<exists>b. s = p @ b)"
  by (induction p s rule: starts_with.induct) auto

lemma contains_iff: "contains t v \<longleftrightarrow> has_token t v"
proof (induction v)
  case Nil
  show ?case by (auto simp: has_token_def)
next
  case (Cons c cs)
  have "has_token t (c # cs) \<longleftrightarrow> (\<exists>b. c # cs = t @ b) \<or> has_token t cs"
    unfolding has_token_def
    apply (rule iffI)
     apply (metis append_eq_Cons_conv append_Nil)
    by (metis append_Cons append_Nil)
  with Cons show ?case by (simp add: starts_with_iff)
qed

lemma foldl_digits_shift:
  "foldl (\<lambda>a c. 10 * a + digit_val c) a ds
     = a * 10 ^ length ds + foldl (\<lambda>a c. 10 * a + digit_val c) 0 ds"
proof (induction ds arbitrary: a)
  case Nil show ?case by simp
next
  case (Cons d ds)
  let ?f = "\<lambda>a c. 10 * a + digit_val c"
  have "foldl ?f a (d # ds) = foldl ?f (10 * a + digit_val d) ds" by simp
  also have "\<dots> = (10 * a + digit_val d) * 10 ^ length ds + foldl ?f 0 ds"
    by (rule Cons.IH)
  also have "\<dots> = a * 10 ^ length (d # ds) + (digit_val d * 10 ^ length ds + foldl ?f 0 ds)"
    by (simp add: algebra_simps)
  also have "digit_val d * 10 ^ length ds + foldl ?f 0 ds = foldl ?f (digit_val d) ds"
    by (rule Cons.IH [symmetric])
  also have "foldl ?f (digit_val d) ds = foldl ?f 0 (d # ds)" by simp
  finally show ?case .
qed

lemma dec_value_Cons: "dec_value (d # ds) = digit_val d * 10 ^ length ds + dec_value ds"
  unfolding dec_value_def by (simp add: sum.lessThan_Suc_shift del: sum.lessThan_Suc)

lemma foldl_digits_dec_value: "foldl (\<lambda>a c. 10 * a + digit_val c) 0 ds = dec_value ds"
proof (induction ds)
  case Nil show ?case by (simp add: dec_value_def)
next
  case (Cons d ds)
  then show ?case
    by (simp add: dec_value_Cons foldl_digits_shift [of "digit_val d"])
qed

text \<open>
  Claim C1, as the code has it. A cell that is no text is returned as it is. For a text,
  let \<open>v\<close> be the text in lower case with every space character (code point 32) removed,
  and \<open>ds\<close> ALL the digit characters of \<open>v\<close>, in their order (not only a leading run).
  If \<open>ds\<close> is empty the result is NaN. Otherwise, when \<open>ds\<close> holds the digits 0 to 9 only
  (at most 4300 of them), the result is the decimal number \<open>ds\<close> writes if \<open>cc\<close>,
  \<open>kwh\<close> or \<open>kw\<close> occurs somewhere in \<open>v\<close>, and the text itself, unchanged, if none does.
\<close>

theorem clean_engine_capacity_text:
  "clean_engine_capacity (CInt n) = Inr (CInt n) \<and>
   clean_engine_capacity (CFloat x) = Inr (CFloat x) \<and>
   (let v = filter (\<lambda>c. c \<noteq> CHR '' '') (map lower_chr s); ds = filter isdigit v in
     (ds = [] \<longrightarrow> clean_engine_capacity (CStr s) = Inr (CFloat NaN)) \<and>
     (ds \<noteq> [] \<and> list_all isdecimal ds \<and> length ds \<le> 4300 \<longrightarrow>
        clean_engine_capacity (CStr s) =
          Inr (if has_token ''cc'' v \<or> has_token ''kwh'' v \<or> has_token ''kw'' v
               then CInt (dec_value ds) else CStr s)))"
  by (simp add: Let_def replace_chr_empty lower_def int_of_digits_def int_max_str_digits_def
      contains_iff foldl_digits_dec_value)

theorem clean_engine_capacity_text_witness:
  "filter isdigit (filter (\<lambda>c. c \<noteq> CHR '' '') (map lower_chr ''1300 CC'')) = ''1300''
   \<and> list_all isdecimal ''1300'' \<and> has_token ''cc'' ''1300cc''
   \<and> clean_engine_capacity (CStr ''1300 CC'') = Inr (CInt 1300)
   \<and> clean_engine_capacity (CStr ''50kw'') = Inr (CInt 50)
   \<and> clean_engine_capacity (CStr ''abc'') = Inr (CFloat NaN)
   \<and> clean_engine_capacity (CInt 5000) = Inr (CInt 5000)"
proof -
  have v: "filter (\<lambda>c. c \<noteq> CHR '' '') (map lower_chr ''1300 CC'') = ''1300cc''"
    by code_simp
  have ds: "filter isdigit ''1300cc'' = ''1300''" by code_simp
  have dec: "list_all isdecimal ''1300''" by code_simp
  have tok: "has_token ''cc'' ''1300cc''"
    unfolding has_token_def by (rule exI [of _ "''1300''"], rule exI [of _ "[]"]) simp
  have val: "dec_value ''1300'' = 1300" by code_simp
  have a: "clean_engine_capacity (CStr ''1300 CC'') = Inr (CInt 1300)"
    using clean_engine_capacity_text [of 0 NaN "''1300 CC''"] v ds dec tok val
    by (simp add: Let_def)
  have b: "clean_engine_capacity (CStr ''50kw'') = Inr (CInt 50)" by code_simp
  have c: "clean_engine_capacity (CStr ''abc'') = Inr (CFloat NaN)" by code_simp
  show ?thesis using a b c v ds dec tok by simp
qed

text \<open>
  Claim C1 as it is stated fails: on \<open>1cc2\<close> the code joins the digits on both sides
  of the unit and returns 12, where the leading run of digits is 1.
\<close>

theorem clean_engine_capacity_all_digits_counterexample:
  "clean_engine_capacity (CStr ''1cc2'') = Inr (CInt 12)
   \<and> spec_clean_engine_capacity (CStr ''1cc2'') = CInt 1"
  by code_simp

text \<open>
  Claim C9: the normalizer is not total. In an engine capacity written in cubic
  centimetres, \<open>1300cm\<close> followed by the superscript three (code point 179), the
  superscript passes \<open>isdigit\<close>, so it is joined to the digits, and \<open>int()\<close> raises
  \<open>ValueError\<close> on the text made of \<open>1300\<close> and the superscript.
\<close>

theorem clean_engine_capacity_raises:
  "clean_engine_capacity (CStr (''1300cm'' @ [CHR 0xB3])) = Inl ValueError"
  by code_simp

section \<open>The cleaning steps\<close>

lemma bindE_Inr: "bindE m f = Inr y \<longleftrightarrow> (\<exists>x. m = Inr x \<and> f x = Inr y)"
  by (cases m) (simp_all add: bindE_def)

lemma mapE_Inr:
  "mapE f xs = Inr ys \<Longrightarrow> ys = map (\<lambda>x. projr (f x)) xs \<and> (\<forall>x \<in> set xs. f x = Inr (projr (f x)))"
  by (induction xs arbitrary: ys) (auto split: sum.splits)

lemma mapE_bool:
  fixes f :: "'a \<Rightarrow> error + bool"
  shows "mapE f xs = Inr bs \<Longrightarrow> bs = map (\<lambda>x. f x = Inr True) xs \<and> (\<forall>x \<in> set xs. \<exists>b. f x = Inr b)"
  by (induction xs arbitrary: bs) (auto split: sum.splits)

lemma zip_map_same: "zip xs (map g xs) = map (\<lambda>x. (x, g x)) xs"
  by (induction xs) simp_all

lemma zip_maps_same: "zip (map f xs) (map g xs) = map (\<lambda>x. (f x, g x)) xs"
  by (induction xs) simp_all

lemma select_map: "rows (select df (map p (rows df))) = filter p (rows df)"
  by (simp add: select_def zip_map_same filter_map comp_def)

lemma select_columns: "columns (select df keep) = columns df"
  by (simp add: select_def)

lemma setitem_columns: "set (columns (setitem df name vals)) = insert name (set (columns df))"
  by (auto simp: setitem_def)

lemma getitem_Inr:
  "getitem df name = Inr s \<longleftrightarrow> name \<in> set (columns df) \<and> s = map (\<lambda>(i, r). r name) (rows df)"
  by (auto simp: getitem_def)

lemma in_range_iff:
  "cell_ge c lo = Inr a \<Longrightarrow> cell_le c hi = Inr b \<Longrightarrow> (a \<and> b) = in_range c lo hi"
  by (cases c; cases "case c of CFloat x \<Rightarrow> x | _ \<Rightarrow> NaN") (auto simp: in_range_def)

lemma between_series_Inr:
  assumes "between_series s lo hi = Inr bs"
  shows "bs = map (\<lambda>c. in_range c lo hi) s"
proof -
  from assms obtain a b where a: "mapE (\<lambda>c. cell_ge c lo) s = Inr a"
    and b: "mapE (\<lambda>c. cell_le c hi) s = Inr b" and bs: "bs = and_mask a b"
    by (auto simp: between_series_def ge_series_def le_series_def bindE_Inr)
  note A = mapE_bool [OF a] and B = mapE_bool [OF b]
  have "and_mask a b = map (\<lambda>c. cell_ge c lo = Inr True \<and> cell_le c hi = Inr True) s"
    using A B by (simp add: and_mask_def zip_maps_same)
  also have "\<dots> = map (\<lambda>c. in_range c lo hi) s"
  proof (rule map_cong [OF refl])
    fix c assume "c \<in> set s"
    with A B obtain x y where "cell_ge c lo = Inr x" "cell_le c hi = Inr y" by blast
    then show "(cell_ge c lo = Inr True \<and> cell_le c hi = Inr True) = in_range c lo hi"
      using in_range_iff [of c lo x hi y] by auto
  qed
  finally show ?thesis using bs by simp
qed

lemma in_range_not_na: "in_range c lo hi \<Longrightarrow> \<not> isna c"
  by (auto simp: in_range_def isna_def)

lemma remove_outliers_rows:
  assumes "remove_outliers df = Inr d"
  shows "columns d = columns df \<and> rows d = filter (\<lambda>(i, r). within_ranges r) (rows df)"
proof -
  let ?m = "map (\<lambda>(i, r). r ''mileage'') (rows df)"
  from assms obtain k1 where k1: "between_series ?m 0 800000 = Inr k1"
    and r1: "bindE (getitem (select df k1) ''engine_capacity'') (\<lambda>ec.
     bindE (between_series ec 600 7000) (\<lambda>combustion.
     bindE (between_series ec 20 150) (\<lambda>electric.
     let df = select (select df k1) (or_mask combustion electric) in
     bindE (getitem df ''engine_capacity'') (\<lambda>ec.
     Inr (select df (map (\<lambda>c. \<not> isna c) ec)))))) = Inr d"
    by (auto simp: remove_outliers_def bindE_Inr getitem_Inr Let_def)
  define d1 where "d1 = select df k1"
  have k1': "k1 = map (\<lambda>(i, r). in_range (r ''mileage'') 0 800000) (rows df)"
    using between_series_Inr [OF k1] by (simp add: case_prod_unfold comp_def)
  have d1: "rows d1 = filter (\<lambda>(i, r). in_range (r ''mileage'') 0 800000) (rows df)"
    unfolding d1_def k1' by (rule select_map)
  have c1: "columns d1 = columns df" by (simp add: d1_def select_columns)
  let ?e = "map (\<lambda>(i, r). r ''engine_capacity'') (rows d1)"
  from r1 obtain k2 k3 where k2: "between_series ?e 600 7000 = Inr k2"
    and k3: "between_series ?e 20 150 = Inr k3"
    and r2: "bindE (getitem (select d1 (or_mask k2 k3)) ''engine_capacity'') (\<lambda>ec.
     Inr (select (select d1 (or_mask k2 k3)) (map (\<lambda>c. \<not> isna c) ec))) = Inr d"
    by (auto simp: bindE_Inr getitem_Inr Let_def d1_def)
  define d2 where "d2 = select d1 (or_mask k2 k3)"
  have k23: "or_mask k2 k3 = map (\<lambda>(i, r). in_range (r ''engine_capacity'') 600 7000
      \<or> in_range (r ''engine_capacity'') 20 150) (rows d1)"
    using between_series_Inr [OF k2] between_series_Inr [OF k3]
    by (simp add: or_mask_def zip_maps_same case_prod_unfold comp_def)
  have d2: "rows d2 = filter (\<lambda>(i, r). in_range (r ''engine_capacity'') 600 7000
      \<or> in_range (r ''engine_capacity'') 20 150) (rows d1)"
    unfolding d2_def k23 by (rule select_map)
  have c2: "columns d2 = columns df" by (simp add: d2_def select_columns c1)
  from r2 have d: "d = select d2 (map (\<lambda>(i, r). \<not> isna (r ''engine_capacity'')) (rows d2))"
    by (auto simp: bindE_Inr getitem_Inr d2_def case_prod_unfold comp_def)
  have "rows d = filter (\<lambda>(i, r). \<not> isna (r ''engine_capacity'')) (rows d2)"
    unfolding d by (rule select_map)
  also have "\<dots> = rows d2"
    unfolding d2 filter_filter by (rule filter_cong) (auto dest: in_range_not_na)
  finally have "rows d = filter (\<lambda>(i, r). within_ranges r) (rows df)"
    unfolding d2 d1 filter_filter by (simp add: within_ranges_def case_prod_unfold conj_commute)
  moreover have "columns d = columns df" by (simp add: d select_columns c2)
  ultimately show ?thesis by simp
qed


lemma setitem_series:
  "rows (setitem df name (map h (map (\<lambda>(i, r). r name') (rows df))))
     = map (\<lambda>(i, r). (i, r(name := h (r name')))) (rows df)"
  by (simp add: setitem_def zip_map_same case_prod_unfold comp_def)

lemma setitem_columns_same: "name \<in> set (columns df) \<Longrightarrow> columns (setitem df name vals) = columns df"
  by (simp add: setitem_def)

lemma coerce_columns_rows:
  assumes "coerce_columns tn df = Inr d"
  shows "columns d = columns df"
    and "rows d = map (\<lambda>(i, r). (i, r(''engine_capacity'' :=
            CFloat (tn (projr (clean_engine_capacity (r ''engine_capacity'')))),
          ''mileage'' := CFloat (tn (r ''mileage''))))) (rows df)"
    and "\<forall>(i, r) \<in> set (rows df). clean_engine_capacity (r ''engine_capacity'')
            = Inr (projr (clean_engine_capacity (r ''engine_capacity'')))"
proof -
  let ?ec = "''engine_capacity''" and ?mi = "''mileage''"
  from assms obtain ec1 where e: "?ec \<in> set (columns df)"
    and ec1: "mapE clean_engine_capacity (map (\<lambda>(i, r). r ?ec) (rows df)) = Inr ec1"
    and r1: "bindE (getitem (setitem df ?ec ec1) ?ec) (\<lambda>ec.
       let df = setitem (setitem df ?ec ec1) ?ec (map (\<lambda>c. CFloat (tn c)) ec) in
       bindE (getitem df ?mi) (\<lambda>m.
       Inr (setitem df ?mi (map (\<lambda>c. CFloat (tn c)) m)))) = Inr d"
    by (auto simp: coerce_columns_def bindE_Inr getitem_Inr Let_def)
  note E = mapE_Inr [OF ec1]
  define d1 where "d1 = setitem df ?ec ec1"
  have ec1': "ec1 = map (\<lambda>c. projr (clean_engine_capacity c)) (map (\<lambda>(i, r). r ?ec) (rows df))"
    using E by simp
  have d1: "rows d1 = map (\<lambda>(i, r). (i, r(?ec := projr (clean_engine_capacity (r ?ec))))) (rows df)"
    unfolding d1_def ec1' by (rule setitem_series)
  have c1: "columns d1 = columns df" by (simp add: d1_def setitem_columns_same e)
  define d2 where "d2 = setitem d1 ?ec (map (\<lambda>c. CFloat (tn c)) (map (\<lambda>(i, r). r ?ec) (rows d1)))"
  have d2: "rows d2 = map (\<lambda>(i, r). (i, r(?ec := CFloat (tn (r ?ec))))) (rows d1)"
    unfolding d2_def by (rule setitem_series)
  have c2: "columns d2 = columns df" by (simp add: d2_def setitem_columns_same e c1)
  from r1 have m: "?mi \<in> set (columns df)"
    and d: "d = setitem d2 ?mi (map (\<lambda>c. CFloat (tn c)) (map (\<lambda>(i, r). r ?mi) (rows d2)))"
    using c2 unfolding d1_def [symmetric]
    by (auto simp: bindE_Inr getitem_Inr Let_def d2_def simp del: map_map)
  have "rows d = map (\<lambda>(i, r). (i, r(?mi := CFloat (tn (r ?mi))))) (rows d2)"
    unfolding d by (rule setitem_series)
  then show "rows d = map (\<lambda>(i, r). (i, r(?ec :=
            CFloat (tn (projr (clean_engine_capacity (r ?ec)))),
          ?mi := CFloat (tn (r ?mi))))) (rows df)"
    by (simp add: d2 d1 case_prod_unfold comp_def)
  show "columns d = columns df" by (simp add: d setitem_columns_same m c2)
  show "\<forall>(i, r) \<in> set (rows df). clean_engine_capacity (r ?ec)
            = Inr (projr (clean_engine_capacity (r ?ec)))"
    using E by auto
qed

lemma str_accessor_Inr: "str_accessor dt s = Inr t \<Longrightarrow> t = s"
  by (auto simp: str_accessor_def split: if_splits)

lemma extract_brand_Inr:
  assumes "extract_brand dt df = Inr d"
  shows "rows d = map (\<lambda>(i, r). (i, r(''brand'' := brand_of (r ''title'')))) (rows df)"
    and "set (columns d) = insert ''brand'' (set (columns df))"
  using assms
  by (auto simp: extract_brand_def bindE_Inr getitem_Inr setitem_series setitem_columns
      dest!: str_accessor_Inr simp del: map_map)

lemma clean_data_rows:
  assumes "clean_data tn df = Inr out"
  shows "rows out = map (\<lambda>(i, r). (i, r(''brand'' := brand_of (r ''title''))))
           (filter (\<lambda>(i, r). within_ranges r)
             (map (\<lambda>(i, r). (i, r(''engine_capacity'' :=
                CFloat (tn (projr (clean_engine_capacity (r ''engine_capacity'')))),
                ''mileage'' := CFloat (tn (r ''mileage''))))) (rows df)))"
    and "set (columns out) = insert ''brand'' (set (columns df))"
    and "\<forall>(i, r) \<in> set (rows df). clean_engine_capacity (r ''engine_capacity'')
            = Inr (projr (clean_engine_capacity (r ''engine_capacity'')))"
proof -
  from assms obtain d1 d2 where 1: "coerce_columns tn df = Inr d1"
    and 2: "remove_outliers d1 = Inr d2"
    and 3: "extract_brand (dtype_of df ''title'') d2 = Inr out"
    by (auto simp: clean_data_def bindE_Inr Let_def)
  note A = coerce_columns_rows [OF 1] and B = remove_outliers_rows [OF 2]
    and C = extract_brand_Inr [OF 3]
  show "rows out = map (\<lambda>(i, r). (i, r(''brand'' := brand_of (r ''title''))))
           (filter (\<lambda>(i, r). within_ranges r)
             (map (\<lambda>(i, r). (i, r(''engine_capacity'' :=
                CFloat (tn (projr (clean_engine_capacity (r ''engine_capacity'')))),
                ''mileage'' := CFloat (tn (r ''mileage''))))) (rows df)))"
    using A(2) B C(1) by simp
  show "set (columns out) = insert ''brand'' (set (columns df))"
    using A(1) B C(2) by simp
  show "\<forall>(i, r) \<in> set (rows df). clean_engine_capacity (r ''engine_capacity'')
            = Inr (projr (clean_engine_capacity (r ''engine_capacity'')))"
    by (rule A(3))
qed

lemma clean_data_kept:
  assumes "clean_data tn df = Inr out" and "(i, r') \<in> set (rows out)"
  shows "\<exists>r y. (i, r) \<in> set (rows df) \<and> clean_engine_capacity (r ''engine_capacity'') = Inr y
     \<and> r' ''mileage'' = CFloat (tn (r ''mileage'')) \<and> r' ''engine_capacity'' = CFloat (tn y)
     \<and> r' ''brand'' = brand_of (r ''title'')
     \<and> in_range (r' ''mileage'') 0 800000
     \<and> (in_range (r' ''engine_capacity'') 600 7000 \<or> in_range (r' ''engine_capacity'') 20 150)"
proof -
  note R = clean_data_rows [OF assms(1)]
  let ?G = "\<lambda>(i, r). (i, r(''engine_capacity'' :=
                CFloat (tn (projr (clean_engine_capacity (r ''engine_capacity'')))),
                ''mileage'' := CFloat (tn (r ''mileage''))))"
  let ?F = "\<lambda>(i, r). (i, r(''brand'' := brand_of (r ''title'')))"
  from assms(2) obtain x where x: "x \<in> set (filter (\<lambda>(i, r). within_ranges r) (map ?G (rows df)))"
    and xr: "(i, r') = ?F x"
    unfolding R(1) set_map by blast
  obtain j c where xc: "x = (j, c)" by (cases x)
  from xr xc have j: "j = i" and r': "r' = c(''brand'' := brand_of (c ''title''))" by simp_all
  from x xc j have c: "within_ranges c" and "(i, c) \<in> set (map ?G (rows df))" by simp_all
  then obtain z where z: "z \<in> set (rows df)" and zc: "(i, c) = ?G z"
    unfolding set_map by blast
  obtain k r where zr: "z = (k, r)" by (cases z)
  from zc zr have k: "k = i" and cr: "c = r(''engine_capacity'' :=
                CFloat (tn (projr (clean_engine_capacity (r ''engine_capacity'')))),
                ''mileage'' := CFloat (tn (r ''mileage'')))" by simp_all
  from z zr k have r: "(i, r) \<in> set (rows df)" by simp
  from R(3) r have y: "clean_engine_capacity (r ''engine_capacity'')
      = Inr (projr (clean_engine_capacity (r ''engine_capacity'')))" by auto
  show ?thesis
    apply (rule exI [of _ r], rule exI [of _ "projr (clean_engine_capacity (r ''engine_capacity''))"])
    using r y c by (simp add: r' cr within_ranges_def)
qed

section \<open>The invariants of the cleaned dataset\<close>

lemma index_unique:
  "distinct (map fst xs) \<Longrightarrow> (i, a) \<in> set xs \<Longrightarrow> (i, b) \<in> set xs \<Longrightarrow> a = b"
  by (rule eq_key_imp_eq_value)

lemma cells:
  "clean_engine_capacity (CStr ''1300cc'') = Inr (CInt 1300)"
  "clean_engine_capacity (CStr ''1800cc'') = Inr (CInt 1800)"
  "clean_engine_capacity (CStr ''660cc'') = Inr (CInt 660)"
  "clean_engine_capacity (CStr ''abc'') = Inr (CFloat NaN)"
  "clean_engine_capacity (CStr ''50kw'') = Inr (CInt 50)"
  "to_numeric_plain (CStr ''50000'') = Fin 50000"
  "to_numeric_plain (CStr ''900000'') = Fin 900000"
  "to_numeric_plain (CStr ''n/a'') = NaN"
  "to_numeric_plain (CStr ''30000'') = Fin 30000"
  "to_numeric_plain (CStr ''10'') = Fin 10"
  "brand_of (CStr ''Toyota Corolla 2015'') = CStr ''Toyota''"
  "brand_of (CStr ''Nissan Leaf'') = CStr ''Nissan''"
  by code_simp+

lemma tn_cells:
  "to_numeric_plain (CInt i) = Fin (of_int i)" "to_numeric_plain (CFloat x) = x"
  by (simp_all add: to_numeric_plain_def)

lemma clean_data_example:
  "clean_data to_numeric_plain example_frame = Inr cleaned_example"
  by (simp add: clean_data_def coerce_columns_def remove_outliers_def extract_brand_def
      example_frame_def example_row_def getitem_def setitem_def select_def between_series_def
      ge_series_def le_series_def and_mask_def or_mask_def bindE_def cells tn_cells isna_def
      cleaned_example_def dtype_of_def str_accessor_def is_text_def
      del: clean_engine_capacity.simps brand_of.simps)

lemma example_distinct: "distinct (map fst (rows example_frame))"
  by (simp add: example_frame_def)

text \<open>
  Claim C3. Let the cleaning steps succeed on a frame whose index labels are distinct, with
  any coercion \<open>to_numeric\<close>. Then the mileage of every row of the cleaned frame is a
  number from 0 to 800000, and every source row whose coerced mileage is not such a
  number is absent from the cleaned frame (its index label is not there); in particular a
  row of mileage 900000, whatever its other cells.
\<close>

theorem mileage_invariant:
  assumes "clean_data to_numeric df = Inr cleaned" and "distinct (map fst (rows df))"
  shows "(\<forall>(i, r) \<in> set (rows cleaned). in_range (r ''mileage'') 0 800000) \<and>
         (\<forall>(i, r) \<in> set (rows df).
            \<not> in_range (CFloat (to_numeric (r ''mileage''))) 0 800000
              \<longrightarrow> i \<notin> fst ` set (rows cleaned)) \<and>
         (\<forall>(i, r) \<in> set (rows df).
            to_numeric (r ''mileage'') = Fin 900000 \<longrightarrow> i \<notin> fst ` set (rows cleaned))"
proof -
  have kept: "in_range (r' ''mileage'') 0 800000"
    if "(i, r') \<in> set (rows cleaned)" for i r'
    using clean_data_kept [OF assms(1) that] by blast
  have dropped: "i \<notin> fst ` set (rows cleaned)"
    if r: "(i, r) \<in> set (rows df)"
      and bad: "\<not> in_range (CFloat (to_numeric (r ''mileage''))) 0 800000" for i r
  proof
    assume "i \<in> fst ` set (rows cleaned)"
    then obtain r' where r': "(i, r') \<in> set (rows cleaned)" by auto
    from clean_data_kept [OF assms(1) r'] obtain r0
      where r0: "(i, r0) \<in> set (rows df)"
        and m: "r' ''mileage'' = CFloat (to_numeric (r0 ''mileage''))"
        and ok: "in_range (r' ''mileage'') 0 800000"
      by blast
    from index_unique [OF assms(2) r r0] have "r0 = r" by simp
    with m ok bad show False by simp
  qed
  have far: "\<not> in_range (CFloat (Fin 900000)) 0 800000" by (simp add: in_range_def)
  show ?thesis using kept dropped far by fastforce
qed

theorem mileage_invariant_witness:
  "clean_data to_numeric_plain example_frame = Inr cleaned_example
   \<and> distinct (map fst (rows example_frame))
   \<and> map fst (rows example_frame) = [0, 1, 2, 3, 4]
   \<and> to_numeric_plain (example_row ''Honda Civic'' ''900000'' ''1800cc'' (Fin 2018) ''mileage'')
        = Fin 900000
   \<and> map fst (rows cleaned_example) = [0, 4]
   \<and> in_range (CFloat (Fin 50000)) 0 800000 \<and> in_range (CFloat (Fin 10)) 0 800000"
proof -
  note inv = mileage_invariant [OF clean_data_example example_distinct]
  have a: "map fst (rows example_frame) = [0, 1, 2, 3, 4]"
    by (simp add: example_frame_def)
  have b: "to_numeric_plain (example_row ''Honda Civic'' ''900000'' ''1800cc'' (Fin 2018) ''mileage'')
        = Fin 900000"
    by (simp add: example_row_def cells)
  have c: "map fst (rows cleaned_example) = [0, 4]"
    by (simp add: cleaned_example_def)
  have d: "in_range (CFloat (Fin 50000)) 0 800000" "in_range (CFloat (Fin 10)) 0 800000"
    by (simp_all add: in_range_def)
  from inv show ?thesis
    by (simp add: clean_data_example example_distinct a b c d)
qed

text \<open>
  Claim C2. Under the same hypotheses the engine capacity of every row of the cleaned
  frame is a number from 600 to 7000 or from 20 to 150, and every source row whose
  normalized and coerced engine capacity is outside both ranges, or is NaN, is absent.
\<close>

theorem engine_capacity_invariant:
  assumes "clean_data to_numeric df = Inr cleaned" and "distinct (map fst (rows df))"
  shows "(\<forall>(i, r) \<in> set (rows cleaned).
            in_range (r ''engine_capacity'') 600 7000 \<or> in_range (r ''engine_capacity'') 20 150) \<and>
         (\<forall>(i, r) \<in> set (rows df). \<forall>y.
            clean_engine_capacity (r ''engine_capacity'') = Inr y \<and>
            \<not> (in_range (CFloat (to_numeric y)) 600 7000 \<or> in_range (CFloat (to_numeric y)) 20 150)
              \<longrightarrow> i \<notin> fst ` set (rows cleaned)) \<and>
         (\<forall>(i, r) \<in> set (rows df). \<forall>y.
            clean_engine_capacity (r ''engine_capacity'') = Inr y \<and> to_numeric y = NaN
              \<longrightarrow> i \<notin> fst ` set (rows cleaned))"
proof -
  have kept: "in_range (r' ''engine_capacity'') 600 7000 \<or> in_range (r' ''engine_capacity'') 20 150"
    if "(i, r') \<in> set (rows cleaned)" for i r'
    using clean_data_kept [OF assms(1) that] by blast
  have dropped: "i \<notin> fst ` set (rows cleaned)"
    if r: "(i, r) \<in> set (rows df)"
      and y: "clean_engine_capacity (r ''engine_capacity'') = Inr y"
      and bad: "\<not> (in_range (CFloat (to_numeric y)) 600 7000
                  \<or> in_range (CFloat (to_numeric y)) 20 150)" for i r y
  proof
    assume "i \<in> fst ` set (rows cleaned)"
    then obtain r' where r': "(i, r') \<in> set (rows cleaned)" by auto
    from clean_data_kept [OF assms(1) r'] obtain r0 y0
      where r0: "(i, r0) \<in> set (rows df)"
        and y0: "clean_engine_capacity (r0 ''engine_capacity'') = Inr y0"
        and e: "r' ''engine_capacity'' = CFloat (to_numeric y0)"
        and ok: "in_range (r' ''engine_capacity'') 600 7000
                  \<or> in_range (r' ''engine_capacity'') 20 150"
      by blast
    from index_unique [OF assms(2) r r0] have "r0 = r" by simp
    with y y0 have "y0 = y" by simp
    with e ok bad show False by simp
  qed
  have nan: "\<not> (in_range (CFloat NaN) 600 7000 \<or> in_range (CFloat NaN) 20 150)"
    by (simp add: in_range_def)
  have missing: "i \<notin> fst ` set (rows cleaned)"
    if "(i, r) \<in> set (rows df)" "clean_engine_capacity (r ''engine_capacity'') = Inr y"
      "to_numeric y = NaN" for i r y
    using dropped [OF that(1,2)] nan that(3) by simp
  show ?thesis using kept dropped missing by blast
qed

theorem engine_capacity_invariant_witness:
  "clean_data to_numeric_plain example_frame = Inr cleaned_example
   \<and> distinct (map fst (rows example_frame))
   \<and> clean_engine_capacity (CStr ''abc'') = Inr (CFloat NaN)
   \<and> map (\<lambda>(i, r). r ''engine_capacity'') (rows cleaned_example)
        = [CFloat (Fin 1300), CFloat (Fin 50)]
   \<and> in_range (CFloat (Fin 1300)) 600 7000 \<and> in_range (CFloat (Fin 50)) 20 150
   \<and> map fst (rows cleaned_example) = [0, 4]"
proof -
  note inv = engine_capacity_invariant [OF clean_data_example example_distinct]
  have a: "map (\<lambda>(i, r). r ''engine_capacity'') (rows cleaned_example)
        = [CFloat (Fin 1300), CFloat (Fin 50)]"
    by (simp add: cleaned_example_def)
  have c: "map fst (rows cleaned_example) = [0, 4]"
    by (simp add: cleaned_example_def)
  have d: "in_range (CFloat (Fin 1300)) 600 7000" "in_range (CFloat (Fin 50)) 20 150"
    by (simp_all add: in_range_def)
  from inv show ?thesis
    by (simp add: clean_data_example example_distinct a c d cells
        del: clean_engine_capacity.simps)
qed

text \<open>
  Claim C10. Under the same hypotheses no row of the cleaned frame has a missing mileage,
  and every source row whose mileage the coercion turns into NaN is absent.
\<close>

theorem mileage_never_missing:
  assumes "clean_data to_numeric df = Inr cleaned" and "distinct (map fst (rows df))"
  shows "(\<forall>(i, r) \<in> set (rows cleaned). \<not> isna (r ''mileage'')) \<and>
         (\<forall>(i, r) \<in> set (rows df).
            to_numeric (r ''mileage'') = NaN \<longrightarrow> i \<notin> fst ` set (rows cleaned))"
proof -
  have kept: "\<not> isna (r' ''mileage'')" if "(i, r') \<in> set (rows cleaned)" for i r'
    using clean_data_kept [OF assms(1) that] in_range_not_na by blast
  have dropped: "i \<notin> fst ` set (rows cleaned)"
    if r: "(i, r) \<in> set (rows df)" and bad: "to_numeric (r ''mileage'') = NaN" for i r
  proof
    assume "i \<in> fst ` set (rows cleaned)"
    then obtain r' where r': "(i, r') \<in> set (rows cleaned)" by auto
    from clean_data_kept [OF assms(1) r'] obtain r0
      where r0: "(i, r0) \<in> set (rows df)"
        and m: "r' ''mileage'' = CFloat (to_numeric (r0 ''mileage''))"
        and ok: "in_range (r' ''mileage'') 0 800000"
      by blast
    from index_unique [OF assms(2) r r0] have "r0 = r" by simp
    with m ok bad show False by (simp add: in_range_def)
  qed
  show ?thesis using kept dropped by blast
qed

theorem mileage_never_missing_witness:
  "clean_data to_numeric_plain example_frame = Inr cleaned_example
   \<and> distinct (map fst (rows example_frame))
   \<and> to_numeric_plain (CStr ''n/a'') = NaN
   \<and> map (\<lambda>(i, r). r ''mileage'') (rows cleaned_example)
        = [CFloat (Fin 50000), CFloat (Fin 10)]
   \<and> map fst (rows cleaned_example) = [0, 4]"
proof -
  note inv = mileage_never_missing [OF clean_data_example example_distinct]
  have a: "map (\<lambda>(i, r). r ''mileage'') (rows cleaned_example)
        = [CFloat (Fin 50000), CFloat (Fin 10)]"
    by (simp add: cleaned_example_def)
  have c: "map fst (rows cleaned_example) = [0, 4]"
    by (simp add: cleaned_example_def)
  from inv show ?thesis
    by (simp add: clean_data_example example_distinct a c cells)
qed

section \<open>The brand\<close>

lemma split_chr_hd: "\<exists>ws. split_chr sep s = takeWhile (\<lambda>c. c \<noteq> sep) s # ws"
  by (induction s) auto

lemma brand_of_text: "brand_of (CStr s) = CStr (takeWhile (\<lambda>c. c \<noteq> CHR '' '') s)"
proof -
  obtain ws where "split_chr CHR '' '' s = takeWhile (\<lambda>c. c \<noteq> CHR '' '') s # ws"
    using split_chr_hd by blast
  then show ?thesis by simp
qed

lemma brand_of_cases:
  "brand_of c = (case c of CStr t \<Rightarrow> CStr (takeWhile (\<lambda>c. c \<noteq> CHR '' '') t) | _ \<Rightarrow> CFloat NaN)"
  by (cases c) (simp_all add: brand_of_text del: brand_of.simps(1))

lemma extract_brand_numeric:
  "''title'' \<in> set (columns df) \<Longrightarrow> extract_brand Numeric df = Inl AttributeError"
  by (simp add: extract_brand_def getitem_def bindE_def str_accessor_def)

text \<open>
  Claim C8, as the code has it. Take a frame whose title column is a text column: its
  dtype is object and its cells are text or missing. Then the extraction does not fail and
  keeps every row; the brand of a row is the part of its title before the first space
  character (code point 32; a tab or another whitespace character does not end it, and a
  title that starts with a space has the empty brand), and it is missing when the title
  is missing. It is computed from the title cell alone.
\<close>

theorem brand_extraction:
  assumes "''title'' \<in> set (columns df)"
    and "\<forall>(i, r) \<in> set (rows df). is_text (r ''title'') \<or> isna (r ''title'')"
  shows "\<exists>d. extract_brand Object df = Inr d \<and> map fst (rows d) = map fst (rows df) \<and>
           (\<forall>k < length (rows df). snd (rows d ! k) ''brand'' =
              (case snd (rows df ! k) ''title'' of
                 CStr t \<Rightarrow> CStr (takeWhile (\<lambda>c. c \<noteq> CHR '' '') t)
               | _ \<Rightarrow> CFloat NaN))"
proof -
  let ?t = "map (\<lambda>(i, r). r ''title'') (rows df)"
  let ?d = "setitem df ''brand'' (map brand_of ?t)"
  have "list_all isna ?t \<or> list_ex is_text ?t"
    using assms(2) by (fastforce simp: list_all_iff list_ex_iff case_prod_unfold)
  then have s: "str_accessor Object ?t = Inr ?t"
    by (simp add: str_accessor_def)
  have e: "extract_brand Object df = Inr ?d"
    using assms(1) by (simp add: extract_brand_def getitem_def bindE_def s del: map_map)
  have r: "rows ?d = map (\<lambda>(i, r). (i, r(''brand'' := brand_of (r ''title'')))) (rows df)"
    by (rule setitem_series)
  have i: "map fst (rows ?d) = map fst (rows df)"
    unfolding r by (simp add: case_prod_unfold comp_def)
  have b: "snd (rows ?d ! k) ''brand'' =
              (case snd (rows df ! k) ''title'' of
                 CStr t \<Rightarrow> CStr (takeWhile (\<lambda>c. c \<noteq> CHR '' '') t)
               | _ \<Rightarrow> CFloat NaN)" if "k < length (rows df)" for k
    unfolding r using that by (simp add: case_prod_unfold brand_of_cases)
  from e i b show ?thesis by blast
qed

lemma brand_cells:
  "brand_of (CStr ''Toyota Corolla 2015'') = CStr ''Toyota''"
  "brand_of (CStr ''Honda Civic'') = CStr ''Honda''"
  "brand_of (CStr ''Suzuki Alto'') = CStr ''Suzuki''"
  "brand_of (CStr ''Kia Sportage'') = CStr ''Kia''"
  "brand_of (CStr ''Nissan Leaf'') = CStr ''Nissan''"
  by code_simp+

theorem brand_extraction_witness:
  "''title'' \<in> set (columns titles_frame)
   \<and> dtype_of titles_frame ''title'' = Object
   \<and> map (\<lambda>(i, r). is_text (r ''title'') \<or> isna (r ''title'')) (rows titles_frame)
        = [True, True]
   \<and> map (\<lambda>(i, r). r ''brand'') (rows (projr (extract_brand Object titles_frame)))
        = [CStr ''Toyota'', CFloat NaN]"
proof -
  have t: "''title'' \<in> set (columns titles_frame)" by (simp add: titles_frame_def)
  have o: "dtype_of titles_frame ''title'' = Object"
    by (simp add: titles_frame_def dtype_of_def is_text_def)
  have c: "map (\<lambda>(i, r). is_text (r ''title'') \<or> isna (r ''title'')) (rows titles_frame)
        = [True, True]"
    by (simp add: titles_frame_def is_text_def isna_def)
  have h: "\<forall>(i, r) \<in> set (rows titles_frame). is_text (r ''title'') \<or> isna (r ''title'')"
    by (simp add: titles_frame_def is_text_def isna_def)
  have ev: "map (\<lambda>(i, r). r ''brand'') (rows (projr (extract_brand Object titles_frame)))
        = [CStr ''Toyota'', CFloat NaN]"
    by (simp add: extract_brand_def getitem_def setitem_def bindE_def titles_frame_def
        str_accessor_def is_text_def isna_def brand_cells del: brand_of.simps(1))
  from brand_extraction [OF t h] show ?thesis by (simp add: t o c ev)
qed

text \<open>
  Claim C8 as it is stated fails on a title whose first two words are separated by a tab:
  the brand is both words, where the first token between whitespace is the first word.
\<close>

theorem brand_tab_counterexample:
  "brand_of (CStr (''Toyota'' @ [CHR 0x09] @ ''Corolla 2015''))
     = CStr (''Toyota'' @ [CHR 0x09] @ ''Corolla'')
   \<and> first_whitespace_token (''Toyota'' @ [CHR 0x09] @ ''Corolla 2015'') = ''Toyota''"
  by code_simp

section \<open>The filters\<close>

lemma isin_empty: "isin s [] = map (\<lambda>c. False) s"
  by (simp add: isin_def)

lemma select_none: "select df (map (\<lambda>c. False) xs) = df\<lparr>rows := []\<rparr>"
proof -
  have "filter snd (zip ys (map (\<lambda>c. False) xs)) = []" for ys :: "(nat \<times> row) list"
    by (auto simp: filter_empty_conv in_set_zip)
  then show ?thesis by (simp add: select_def)
qed

lemma select_empty: "select (df\<lparr>rows := []\<rparr>) keep = df\<lparr>rows := []\<rparr>"
  by (simp add: select_def)

text \<open>
  Claim C7. On every cleaned dataset, an empty brand selection filters every row out,
  whatever the year range: the filters return the frame with no rows.
\<close>

theorem empty_selection:
  assumes "clean_data to_numeric raw = Inr df"
  shows "apply_filters df [] selected_years = Inr (df\<lparr>rows := []\<rparr>)"
proof -
  from clean_data_rows(2) [OF assms] have b: "''brand'' \<in> set (columns df)" by simp
  have s: "select df (isin (map (\<lambda>(i, r). r ''brand'') (rows df)) []) = df\<lparr>rows := []\<rparr>"
    unfolding isin_empty by (rule select_none)
  show ?thesis
    using b
    by (simp add: apply_filters_def getitem_def bindE_def s ge_series_def le_series_def
        and_mask_def select_empty Let_def del: map_map)
qed

theorem empty_selection_witness:
  "clean_data to_numeric_plain example_frame = Inr cleaned_example
   \<and> rows (projr (apply_filters cleaned_example [] (2015, 2020))) = []"
  using empty_selection [OF clean_data_example, of "(2015, 2020)"]
  by (simp add: clean_data_example)

section \<open>Column labels\<close>

lemma isword_not_space: "isword c \<Longrightarrow> \<not> isspace c"
  by (auto simp: isword_def isspace_def)

lemma isword_not_blank: "isword c \<Longrightarrow> c \<noteq> CHR '' ''"
  by (auto simp: isword_def code_def)

lemma dropWhile_none: "\<forall>c \<in> set xs. \<not> P c \<Longrightarrow> dropWhile P xs = xs"
  by (cases xs) auto

lemma strip_id: "\<forall>c \<in> set s. \<not> isspace c \<Longrightarrow> strip s = s"
  by (simp add: strip_def dropWhile_none)

lemma replace_chr_id: "\<forall>c \<in> set s. c \<noteq> old \<Longrightarrow> replace_chr old new s = s"
  by (induction s) (auto simp: replace_chr_def)

text \<open>
  Claim C4. Normalizing a label twice gives what normalizing it once gives. The
  normalization is a total function of the text: it has no failing case. (Of the
  whitespace inside a label, the space characters become underscores; a tab or a line
  break is deleted with the other characters that \<open>\w\<close> does not match.)
\<close>

theorem normalize_idempotent: "normalize_label (normalize_label x) = normalize_label x"
proof -
  let ?y = "normalize_label x"
  have w: "\<forall>c \<in> set ?y. isword c" by (simp add: normalize_label_def)
  have 1: "strip ?y = ?y" using w by (intro strip_id) (blast dest: isword_not_space)
  have 2: "replace_chr CHR '' '' ''_'' ?y = ?y"
    using w by (intro replace_chr_id) (blast dest: isword_not_blank)
  have 3: "filter isword ?y = ?y" using w by (simp add: filter_id_conv)
  have "normalize_label ?y = filter isword (replace_chr CHR '' '' ''_'' (strip ?y))"
    by (simp add: normalize_label_def)
  then show ?thesis by (simp only: 1 2 3)
qed

section \<open>Missing values in the loader\<close>

lemma mapE_nth: "mapE f xs = Inr ys \<Longrightarrow> i < length xs \<Longrightarrow> f (xs ! i) = Inr (ys ! i)"
  using mapE_Inr [of f xs ys] by (metis nth_map nth_mem)

lemma str_of_int_zero: "str_of_int 0 = ''0''"
  by code_simp

lemma convert_zero:
  "convert lib conv (if fd then CFloat (Fin 0) else CInt 0) =
     Inr (case conv of ToStr \<Rightarrow> PStr (if fd then str_of_float lib (Fin 0) else ''0'')
          | ToFloat \<Rightarrow> PFloat (Fin 0) | ToInt \<Rightarrow> PInt 0)"
  by (cases conv) (simp_all add: str_of_int_zero bindE_def)

lemma load_rows_example:
  "load_rows example_lib stored_frame =
     Inr [[PStr ''Toyota Corolla'', PFloat (Fin 1500000), PInt 2015, PFloat (Fin 50000),
           PStr ''x'', PFloat (Fin 1300), PStr ''x'', PStr ''x'', PStr ''Red'', PStr ''x'',
           PStr ''x'', PStr ''x''],
          [PStr ''Honda Civic'', PFloat (Fin 1500000), PInt 2015, PFloat (Fin 50000),
           PStr ''x'', PFloat (Fin 1300), PStr ''x'', PStr ''x'', PStr ''0'', PStr ''x'',
           PStr ''x'', PStr ''x'']]"
  by code_simp

text \<open>
  Claim C5, as the code has it. When the loader inserts a frame, a missing cell of it is
  stored as the number zero, whatever its column: 0.0 through \<open>float()\<close>, 0 through
  \<open>int()\<close>, and through \<open>str()\<close> the text of that zero, which is \<open>0\<close> in a text
  column (and the text of the float 0.0 in a column that holds floats only), never the
  empty text. The loader has no date column: \<open>Last_Updated\<close> is inserted through
  \<open>str()\<close> as the other text columns are.
\<close>

theorem missing_value_stored:
  assumes "load_rows lib df = Inr ps"
    and "k < length (rows df)"
    and "j < length insert_columns"
    and "insert_columns ! j = (name, conv)"
    and "isna (snd (rows df ! k) name)"
  shows "ps ! k ! j =
           (case conv of
              ToStr \<Rightarrow> PStr (if float_dtype df name then str_of_float lib (Fin 0) else ''0'')
            | ToFloat \<Rightarrow> PFloat (Fin 0)
            | ToInt \<Rightarrow> PInt 0)"
proof -
  let ?df = "fillna0 df"
  have rows: "rows ?df = map (\<lambda>(i, r). (i, \<lambda>name.
        if name \<in> set (columns df) \<and> isna (r name)
        then (if float_dtype df name then CFloat (Fin 0) else CInt 0)
        else r name)) (rows df)"
    and cols: "columns ?df = columns df"
    by (simp_all add: fillna0_def)
  from assms(1) have all: "mapE (\<lambda>(i, r). insert_params lib ?df r) (rows ?df) = Inr ps"
    by (simp add: load_rows_def Let_def)
  have k: "k < length (rows ?df)" using assms(2) by (simp add: rows)
  obtain i r where ir: "rows df ! k = (i, r)" by (cases "rows df ! k")
  let ?r = "\<lambda>name. if name \<in> set (columns df) \<and> isna (r name)
        then (if float_dtype df name then CFloat (Fin 0) else CInt 0) else r name"
  have rk: "rows ?df ! k = (i, ?r)" using assms(2) ir by (simp add: rows)
  from mapE_nth [OF all k] rk have row: "insert_params lib ?df ?r = Inr (ps ! k)" by simp
  from mapE_nth [OF row [unfolded insert_params_def] assms(3)] assms(4)
  have cell: "bindE (row_get ?df ?r name) (convert lib conv) = Inr (ps ! k ! j)" by simp
  then have name: "name \<in> set (columns df)"
    by (auto simp: bindE_Inr row_get_def cols split: if_splits)
  from assms(5) ir have na: "isna (r name)" by simp
  from cell name na have "convert lib conv (if float_dtype df name then CFloat (Fin 0) else CInt 0)
      = Inr (ps ! k ! j)"
    by (simp add: row_get_def cols bindE_def)
  then show ?thesis unfolding convert_zero by simp
qed

theorem missing_value_stored_witness:
  "(1::nat) < length (rows stored_frame) \<and> (8::nat) < length insert_columns
   \<and> insert_columns ! 8 = (''Color'', ToStr)
   \<and> isna (snd (rows stored_frame ! 1) ''Color'')
   \<and> \<not> float_dtype stored_frame ''Color''
   \<and> projr (load_rows example_lib stored_frame) ! 1 ! 8 = PStr ''0''"
proof -
  have k: "(1::nat) < length (rows stored_frame)" by code_simp
  have j: "(8::nat) < length insert_columns" by code_simp
  have c: "insert_columns ! 8 = (''Color'', ToStr)" by code_simp
  have n: "isna (snd (rows stored_frame ! 1) ''Color'')" by code_simp
  have d: "\<not> float_dtype stored_frame ''Color''" by code_simp
  from missing_value_stored [OF load_rows_example k j c n] d
  have "projr (load_rows example_lib stored_frame) ! 1 ! 8 = PStr ''0''"
    by (simp add: load_rows_example)
  with k j c n d show ?thesis by blast
qed

text \<open>
  Claim C5 as it is stated fails: the missing colour of the second row of the example is
  stored as the text \<open>0\<close>, where the zero-equivalent of a text column is the empty text.
\<close>

theorem missing_text_counterexample:
  "isna (snd (rows stored_frame ! 1) ''Color'')
   \<and> insert_columns ! 8 = (''Color'', ToStr)
   \<and> projr (load_rows example_lib stored_frame) ! 1 ! 8 = PStr ''0''
   \<and> zero_equivalent ToStr = PStr []"
  by code_simp

section \<open>The full selection\<close>

lemma fold_min_Fin:
  assumes "\<forall>x \<in> set (y # ys). \<exists>q. x = Fin q"
  shows "\<exists>m. foldl (\<lambda>a b. if fl_less b a then b else a) y ys = Fin m
           \<and> Fin m \<in> set (y # ys) \<and> (\<forall>q. Fin q \<in> set (y # ys) \<longrightarrow> m \<le> q)"
  using assms
proof (induction ys arbitrary: y)
  case Nil
  then show ?case by auto
next
  case (Cons z zs)
  from Cons.prems obtain a b where y: "y = Fin a" and z: "z = Fin b" by auto
  let ?y = "if fl_less z y then z else y"
  have "\<forall>x \<in> set (?y # zs). \<exists>q. x = Fin q" using Cons.prems by auto
  from Cons.IH [OF this] obtain m
    where m: "foldl (\<lambda>a b. if fl_less b a then b else a) ?y zs = Fin m"
      and mem: "Fin m \<in> set (?y # zs)" and le: "\<forall>q. Fin q \<in> set (?y # zs) \<longrightarrow> m \<le> q"
    by blast
  have ab: "m \<le> a \<and> m \<le> b" using le y z by (auto split: if_splits)
  show ?case
  proof (intro exI conjI allI impI)
    show "foldl (\<lambda>a b. if fl_less b a then b else a) y (z # zs) = Fin m" using m by simp
    show "Fin m \<in> set (y # z # zs)" using mem by (auto split: if_splits)
    fix q assume "Fin q \<in> set (y # z # zs)"
    then consider "q = a" | "q = b" | "Fin q \<in> set zs" using y z by auto
    then show "m \<le> q" using ab le by cases auto
  qed
qed

lemma fold_max_Fin:
  assumes "\<forall>x \<in> set (y # ys). \<exists>q. x = Fin q"
  shows "\<exists>m. foldl (\<lambda>a b. if fl_less a b then b else a) y ys = Fin m
           \<and> Fin m \<in> set (y # ys) \<and> (\<forall>q. Fin q \<in> set (y # ys) \<longrightarrow> q \<le> m)"
  using assms
proof (induction ys arbitrary: y)
  case Nil
  then show ?case by auto
next
  case (Cons z zs)
  from Cons.prems obtain a b where y: "y = Fin a" and z: "z = Fin b" by auto
  let ?y = "if fl_less y z then z else y"
  have "\<forall>x \<in> set (?y # zs). \<exists>q. x = Fin q" using Cons.prems by auto
  from Cons.IH [OF this] obtain m
    where m: "foldl (\<lambda>a b. if fl_less a b then b else a) ?y zs = Fin m"
      and mem: "Fin m \<in> set (?y # zs)" and le: "\<forall>q. Fin q \<in> set (?y # zs) \<longrightarrow> q \<le> m"
    by blast
  have ab: "a \<le> m \<and> b \<le> m" using le y z by (auto split: if_splits)
  show ?case
  proof (intro exI conjI allI impI)
    show "foldl (\<lambda>a b. if fl_less a b then b else a) y (z # zs) = Fin m" using m by simp
    show "Fin m \<in> set (y # z # zs)" using mem by (auto split: if_splits)
    fix q assume "Fin q \<in> set (y # z # zs)"
    then consider "q = a" | "q = b" | "Fin q \<in> set zs" using y z by auto
    then show "q \<le> m" using ab le by cases auto
  qed
qed

lemma nanmin_Fin:
  assumes "\<forall>x \<in> set xs. x = NaN \<or> (\<exists>q. x = Fin q)" and "nanmin xs = Fin m"
  shows "Fin m \<in> set xs \<and> (\<forall>q. Fin q \<in> set xs \<longrightarrow> m \<le> q)"
proof (cases "filter (\<lambda>x. x \<noteq> NaN) xs")
  case Nil
  with assms(2) show ?thesis by (simp add: nanmin_def)
next
  case (Cons y ys)
  have s: "set (y # ys) = {x \<in> set xs. x \<noteq> NaN}" using Cons [symmetric] by simp
  then have "\<forall>x \<in> set (y # ys). \<exists>q. x = Fin q" using assms(1) by blast
  from fold_min_Fin [OF this] assms(2) Cons
  have "Fin m \<in> set (y # ys)" and "\<forall>q. Fin q \<in> set (y # ys) \<longrightarrow> m \<le> q"
    by (auto simp: nanmin_def)
  then show ?thesis unfolding s by auto
qed

lemma nanmax_Fin:
  assumes "\<forall>x \<in> set xs. x = NaN \<or> (\<exists>q. x = Fin q)" and "nanmax xs = Fin m"
  shows "Fin m \<in> set xs \<and> (\<forall>q. Fin q \<in> set xs \<longrightarrow> q \<le> m)"
proof (cases "filter (\<lambda>x. x \<noteq> NaN) xs")
  case Nil
  with assms(2) show ?thesis by (simp add: nanmax_def)
next
  case (Cons y ys)
  have s: "set (y # ys) = {x \<in> set xs. x \<noteq> NaN}" using Cons [symmetric] by simp
  then have "\<forall>x \<in> set (y # ys). \<exists>q. x = Fin q" using assms(1) by blast
  from fold_max_Fin [OF this] assms(2) Cons
  have "Fin m \<in> set (y # ys)" and "\<forall>q. Fin q \<in> set (y # ys) \<longrightarrow> q \<le> m"
    by (auto simp: nanmax_def)
  then show ?thesis unfolding s by auto
qed

lemma whole_year_num:
  "whole_year c \<Longrightarrow> (c = CFloat NaN \<and> num_of c = Inr NaN)
     \<or> (\<exists>q. num_of c = Inr (Fin q) \<and> of_int \<lfloor>q\<rfloor> = q \<and> (c = CFloat (Fin q) \<or> (\<exists>i. c = CInt i \<and> q = of_int i)))"
  by (cases c; cases "case c of CFloat x \<Rightarrow> x | _ \<Rightarrow> NaN") (auto simp: whole_year_def)

lemma int_of_fl_whole:
  "int_of_fl x = Inr n \<Longrightarrow> x = Fin q \<Longrightarrow> of_int \<lfloor>q\<rfloor> = q \<Longrightarrow> of_int n = q"
  by (auto split: if_splits simp: ceiling_altdef)


lemma mapE_all: "\<forall>x \<in> set xs. f x = Inr (g x) \<Longrightarrow> mapE f xs = Inr (map g xs)"
  by (induction xs) simp_all

lemma whole_years_nums:
  assumes "\<forall>c \<in> set y. whole_year c" and "mapE num_of y = Inr xs"
  shows "\<forall>x \<in> set xs. x = NaN \<or> (\<exists>q. x = Fin q)"
    and "\<forall>c \<in> set y. \<forall>q. num_of c = Inr (Fin q) \<longrightarrow> Fin q \<in> set xs"
    and "\<forall>q. Fin q \<in> set xs \<longrightarrow> of_int \<lfloor>q\<rfloor> = q"
proof -
  note X = mapE_Inr [OF assms(2)]
  have mem: "x \<in> set xs \<longleftrightarrow> (\<exists>c \<in> set y. num_of c = Inr x)" for x
  proof
    assume "x \<in> set xs"
    then obtain c where "c \<in> set y" "x = projr (num_of c)" using X by auto
    with X show "\<exists>c \<in> set y. num_of c = Inr x" by auto
  next
    assume "\<exists>c \<in> set y. num_of c = Inr x"
    then obtain c where c: "c \<in> set y" "num_of c = Inr x" by blast
    then have "x = projr (num_of c)" by simp
    with c(1) X show "x \<in> set xs" by auto
  qed
  show "\<forall>x \<in> set xs. x = NaN \<or> (\<exists>q. x = Fin q)"
    using mem assms(1) whole_year_num by fastforce
  show "\<forall>c \<in> set y. \<forall>q. num_of c = Inr (Fin q) \<longrightarrow> Fin q \<in> set xs"
    using mem by blast
  show "\<forall>q. Fin q \<in> set xs \<longrightarrow> of_int \<lfloor>q\<rfloor> = q"
    using mem assms(1) whole_year_num by fastforce
qed

lemma year_lower:
  assumes wy: "\<forall>c \<in> set y. whole_year c"
    and lo: "series_min y = Inr lo" and mn: "int_of_fl lo = Inr mn" and c: "c \<in> set y"
  shows "cell_ge c mn = Inr (\<not> isna c)"
proof -
  from lo obtain xs where xs: "mapE num_of y = Inr xs" and lo': "lo = nanmin xs"
    by (auto simp: series_min_def bindE_Inr)
  note W = whole_years_nums [OF wy xs]
  from mn obtain q where q: "lo = Fin q" by (cases lo) auto
  from nanmin_Fin [OF W(1)] q lo'
  have least: "Fin q \<in> set xs" "\<forall>p. Fin p \<in> set xs \<longrightarrow> q \<le> p" by auto
  from W(3) least(1) have "of_int \<lfloor>q\<rfloor> = q" by blast
  from int_of_fl_whole [OF mn q this] have n: "of_int mn = q" .
  from whole_year_num [OF wy [rule_format, OF c]] show ?thesis
  proof (elim disjE conjE exE)
    assume "c = CFloat NaN"
    then show ?thesis by (simp add: isna_def)
  next
    fix p assume p: "num_of c = Inr (Fin p)" and "c = CFloat (Fin p)"
    with W(2) c least(2) have "q \<le> p" by blast
    with \<open>c = CFloat (Fin p)\<close> n show ?thesis by (simp add: isna_def)
  next
    fix p i assume p: "num_of c = Inr (Fin p)" and i: "c = CInt i" "p = of_int i"
    with W(2) c least(2) have "q \<le> p" by blast
    with i n have "(of_int mn :: rat) \<le> of_int i" by simp
    then have "mn \<le> i" by simp
    with i show ?thesis by (simp add: isna_def)
  qed
qed

lemma year_upper:
  assumes wy: "\<forall>c \<in> set y. whole_year c"
    and hi: "series_max y = Inr hi" and mx: "int_of_fl hi = Inr mx" and c: "c \<in> set y"
  shows "cell_le c mx = Inr (\<not> isna c)"
proof -
  from hi obtain xs where xs: "mapE num_of y = Inr xs" and hi': "hi = nanmax xs"
    by (auto simp: series_max_def bindE_Inr)
  note W = whole_years_nums [OF wy xs]
  from mx obtain q where q: "hi = Fin q" by (cases hi) auto
  from nanmax_Fin [OF W(1)] q hi'
  have most: "Fin q \<in> set xs" "\<forall>p. Fin p \<in> set xs \<longrightarrow> p \<le> q" by auto
  from W(3) most(1) have "of_int \<lfloor>q\<rfloor> = q" by blast
  from int_of_fl_whole [OF mx q this] have n: "of_int mx = q" .
  from whole_year_num [OF wy [rule_format, OF c]] show ?thesis
  proof (elim disjE conjE exE)
    assume "c = CFloat NaN"
    then show ?thesis by (simp add: isna_def)
  next
    fix p assume p: "num_of c = Inr (Fin p)" and "c = CFloat (Fin p)"
    with W(2) c most(2) have "p \<le> q" by blast
    with \<open>c = CFloat (Fin p)\<close> n show ?thesis by (simp add: isna_def)
  next
    fix p i assume p: "num_of c = Inr (Fin p)" and i: "c = CInt i" "p = of_int i"
    with W(2) c most(2) have "p \<le> q" by blast
    with i n have "(of_int i :: rat) \<le> of_int mx" by simp
    then have "i \<le> mx" by simp
    with i show ?thesis by (simp add: isna_def)
  qed
qed

lemma select_frame: "select df (map p (rows df)) = df\<lparr>rows := filter p (rows df)\<rparr>"
  by (simp add: select_def zip_map_same filter_map comp_def)

lemma and_mask_same: "and_mask m m = m"
  by (induction m) (simp_all add: and_mask_def)

lemma set_unique: "set (unique s) = set s"
  by (simp add: unique_def)

lemma years_cells:
  "clean_engine_capacity (CStr ''1300cc'') = Inr (CInt 1300)"
  "clean_engine_capacity (CStr ''1800cc'') = Inr (CInt 1800)"
  "clean_engine_capacity (CStr ''50kw'') = Inr (CInt 50)"
  "to_numeric_plain (CStr ''50000'') = Fin 50000"
  "to_numeric_plain (CStr ''60000'') = Fin 60000"
  "to_numeric_plain (CStr ''10'') = Fin 10"
  by code_simp+

lemma clean_data_years:
  "clean_data to_numeric_plain years_frame = Inr years_cleaned"
  by (simp add: clean_data_def coerce_columns_def remove_outliers_def extract_brand_def
      years_frame_def example_row_def getitem_def setitem_def select_def between_series_def
      ge_series_def le_series_def and_mask_def or_mask_def bindE_def years_cells tn_cells
      isna_def years_cleaned_def dtype_of_def str_accessor_def is_text_def brand_cells
      del: clean_engine_capacity.simps brand_of.simps)

lemma filters_example:
  "brand_options years_cleaned = Inr [CStr ''Toyota'', CStr ''Honda'', CStr ''Nissan'']"
  "year_range years_cleaned = Inr (2015, 2018)"
  "map fst (rows (projr (apply_filters years_cleaned
      [CStr ''Toyota'', CStr ''Honda'', CStr ''Nissan''] (2015, 2018)))) = [0, 1]"
  by (simp_all add: brand_options_def year_range_def apply_filters_def years_cleaned_def
      getitem_def bindE_def unique_def series_min_def series_max_def nanmin_def nanmax_def
      isin_def select_def ge_series_def le_series_def and_mask_def slider_def)

text \<open>
  Claim C6, as the code has it. Take a frame with a brand column (the cleaned dataset is
  one), all its distinct brands as the selection and, as the year range, the default of
  the slider: the truncated least and greatest year of the frame. When the years of the
  frame are whole numbers or missing, the filters return the rows whose year is not
  missing, in their order; a row with a missing year fails both comparisons of the year
  filter and is left out. So the whole frame is returned when no year of it is missing,
  and when it has no year column, and not otherwise.
\<close>

theorem full_selection:
  assumes bo: "brand_options df = Inr brands"
    and yr: "year_range df = Inr years"
    and wy: "''year'' \<in> set (columns df) \<longrightarrow> (\<forall>(i, r) \<in> set (rows df). whole_year (r ''year''))"
  shows "apply_filters df brands years =
           Inr (df\<lparr>rows := filter (\<lambda>(i, r). ''year'' \<in> set (columns df) \<longrightarrow> \<not> isna (r ''year''))
                  (rows df)\<rparr>)"
proof -
  let ?b = "map (\<lambda>(i, r). r ''brand'') (rows df)"
  from bo have b: "''brand'' \<in> set (columns df)" and brands: "brands = unique ?b"
    by (auto simp: brand_options_def bindE_Inr getitem_Inr)
  have "isin ?b brands = map (\<lambda>x. True) (rows df)"
    by (simp add: isin_def brands set_unique case_prod_unfold)
  then have all: "select df (isin ?b brands) = df"
    by (simp add: select_frame)
  show ?thesis
  proof (cases "''year'' \<in> set (columns df)")
    case False
    with b all show ?thesis by (simp add: apply_filters_def getitem_def bindE_def)
  next
    case True
    let ?y = "map (\<lambda>(i, r). r ''year'') (rows df)"
    from wy True have w: "\<forall>c \<in> set ?y. whole_year c" by auto
    from yr True obtain lo mn hi mx where lo: "series_min ?y = Inr lo"
      and mn: "int_of_fl lo = Inr mn" and hi: "series_max ?y = Inr hi"
      and mx: "int_of_fl hi = Inr mx" and years: "years = (mn, mx)"
      by (auto simp: year_range_def bindE_Inr getitem_Inr slider_def split: if_splits)
    have ge: "ge_series ?y mn = Inr (map (\<lambda>c. \<not> isna c) ?y)"
      unfolding ge_series_def using year_lower [OF w lo mn] by (intro mapE_all) blast
    have le: "le_series ?y mx = Inr (map (\<lambda>c. \<not> isna c) ?y)"
      unfolding le_series_def using year_upper [OF w hi mx] by (intro mapE_all) blast
    have "apply_filters df brands years = Inr (select df (map (\<lambda>c. \<not> isna c) ?y))"
      using b True
      by (simp add: apply_filters_def getitem_def bindE_def all ge le years and_mask_same
          del: map_map)
    also have "map (\<lambda>c. \<not> isna c) ?y = map (\<lambda>(i, r). \<not> isna (r ''year'')) (rows df)"
      by (simp add: case_prod_unfold)
    finally show ?thesis using True by (simp add: select_frame del: map_map)
  qed
qed

theorem full_selection_witness:
  "brand_options years_cleaned = Inr [CStr ''Toyota'', CStr ''Honda'', CStr ''Nissan'']
   \<and> year_range years_cleaned = Inr (2015, 2018)
   \<and> ''year'' \<in> set (columns years_cleaned)
   \<and> map (\<lambda>(i, r). whole_year (r ''year'')) (rows years_cleaned) = [True, True, True]
   \<and> map (\<lambda>(i, r). isna (r ''year'')) (rows years_cleaned) = [False, False, True]
   \<and> map fst (rows (projr (apply_filters years_cleaned
         [CStr ''Toyota'', CStr ''Honda'', CStr ''Nissan''] (2015, 2018)))) = [0, 1]"
proof -
  have y: "''year'' \<in> set (columns years_cleaned)" by (simp add: years_cleaned_def)
  have w: "map (\<lambda>(i, r). whole_year (r ''year'')) (rows years_cleaned) = [True, True, True]"
    by (simp add: years_cleaned_def whole_year_def)
  have n: "map (\<lambda>(i, r). isna (r ''year'')) (rows years_cleaned) = [False, False, True]"
    by (simp add: years_cleaned_def isna_def)
  have h: "''year'' \<in> set (columns years_cleaned) \<longrightarrow>
      (\<forall>(i, r) \<in> set (rows years_cleaned). whole_year (r ''year''))"
    by (simp add: years_cleaned_def whole_year_def)
  from full_selection [OF filters_example(1) filters_example(2) h]
  have "map fst (rows (projr (apply_filters years_cleaned
         [CStr ''Toyota'', CStr ''Honda'', CStr ''Nissan''] (2015, 2018)))) = [0, 1]"
    by (simp add: years_cleaned_def isna_def)
  with filters_example(1,2) y w n show ?thesis by blast
qed

text \<open>
  Claim C6 as it is stated fails: of the three rows of a cleaned frame with the years 2015
  and 2018, the one with the missing year is not in the result of the full selection.
\<close>

theorem full_selection_counterexample:
  "clean_data to_numeric_plain years_frame = Inr years_cleaned
   \<and> brand_options years_cleaned = Inr [CStr ''Toyota'', CStr ''Honda'', CStr ''Nissan'']
   \<and> year_range years_cleaned = Inr (2015, 2018)
   \<and> map fst (rows years_cleaned) = [0, 1, 2]
   \<and> isna (snd (rows years_cleaned ! 2) ''year'')
   \<and> map fst (rows (projr (apply_filters years_cleaned
         [CStr ''Toyota'', CStr ''Honda'', CStr ''Nissan''] (2015, 2018)))) = [0, 1]"
  by (simp add: clean_data_years filters_example) (simp add: years_cleaned_def isna_def)

end
